theory Spec2Isabelle
  imports Complex_Main "HOL-Library.Char_ord" "HOL-Library.List_Lexorder" "HOL-Library.Sublist" "HOL-Library.AList"
begin

section \<open>Run-time values\<close>

text \<open>
  The library is TypeScript and runs on JavaScript values. A number is a double; the model
  keeps the three special values and names a finite double by the rational that its
  shortest decimal notation denotes, so \<open>0.5\<close> is \<open>Fin (1/2)\<close>. It computes with the
  doubles of a short notation only, where no rounding is involved (see \<open>modelled\<close> and
  \<open>exact\<close> below), and has one zero, without a sign.

  Arrays and objects are references into a store: \<open>===\<close> and \<open>Set\<close> compare them by
  identity, and \<open>push\<close> updates them in place. The store is a list of cells, an address is
  an index into it, and allocating appends a cell.
\<close>

datatype jsnum = NaN | PInf | NInf | Fin rat

datatype val = VUndef | VNull | VBool bool | VNum jsnum | VStr string | VRef nat

text \<open>
  An object is an association list from key to value, read by \<open>map_of\<close>, with the keys
  in the order of their creation.
\<close>

datatype cell = CArr "val list" | CObj "(string \<times> val) list"

type_synonym heap = "cell list"

text \<open>
  \<open>TypeError\<close> is the JavaScript exception, and \<open>UnknownFunctionError\<close> the \<open>Error\<close> of
  \<open>compile\<close> for a name that is no function, thrown while an evaluator runs: \<open>uniqBy\<close>
  compiles its path then. \<open>OutOfModel\<close> is no behaviour of the program: it marks a run that
  reaches a part of JavaScript the model leaves out (a built-in object found through a
  prototype, a number of more than 15 significant digits, arithmetic that rounds, a
  quotient whose sign is the sign of a zero, a sort with a comparator that is no order,
  a dangling address). No theorem reads it as a result of the code.
\<close>

datatype error = TypeError | UnknownFunctionError string | OutOfModel

type_synonym 'a res = "(error + 'a) \<times> heap"

type_synonym evaluator = "val \<Rightarrow> heap \<Rightarrow> val res"

text \<open>
  What the engine supplies. \<open>inherited k name\<close> says that values of kind \<open>k\<close> find a
  property \<open>name\<close> on their prototype chain (\<open>toString\<close>, \<open>map\<close>, \<open>__proto__\<close>, ...): such
  a property is a built-in function or object, not a Value. \<open>regexp pattern flags\<close> is
  \<open>new RegExp(pattern, flags)\<close> as the test on strings it performs; \<open>None\<close> stands for a
  \<open>SyntaxError\<close> and for the flags \<open>g\<close> and \<open>y\<close>, whose \<open>lastIndex\<close> makes the test
  depend on earlier calls.
\<close>

datatype kind = KBoolean | KNumber | KString | KArray | KObject

record host =
  inherited :: "kind \<Rightarrow> string \<Rightarrow> bool"
  regexp :: "string \<Rightarrow> string option \<Rightarrow> (string \<Rightarrow> bool) option"

subsection \<open>The store\<close>

definition cell_at :: "heap \<Rightarrow> nat \<Rightarrow> cell option" where
  "cell_at h a = (if a < length h then Some (h ! a) else None)"

definition alloc :: "cell \<Rightarrow> heap \<Rightarrow> val res" where
  "alloc c h = (Inr (VRef (length h)), h @ [c])"

fun mapM :: "('a \<Rightarrow> heap \<Rightarrow> 'b res) \<Rightarrow> 'a list \<Rightarrow> heap \<Rightarrow> 'b list res" where
  "mapM f [] h = (Inr [], h)"
| "mapM f (x # xs) h =
     (case f x h of
        (Inl e, h1) \<Rightarrow> (Inl e, h1)
      | (Inr y, h1) \<Rightarrow>
          (case mapM f xs h1 of
             (Inl e, h2) \<Rightarrow> (Inl e, h2)
           | (Inr ys, h2) \<Rightarrow> (Inr (y # ys), h2)))"

subsection \<open>Numbers and their strings\<close>

definition num_neg :: "jsnum \<Rightarrow> jsnum" where
  "num_neg x = (case x of NaN \<Rightarrow> NaN | PInf \<Rightarrow> NInf | NInf \<Rightarrow> PInf | Fin a \<Rightarrow> Fin (- a))"

text \<open>\<open>q\<close> with its decimal point moved \<open>d\<close> places to the right.\<close>

definition shift10 :: "rat \<Rightarrow> int \<Rightarrow> rat" where
  "shift10 q d = (if 0 \<le> d then q * 10 ^ nat d else q / 10 ^ nat (- d))"

definition digit_char :: "nat \<Rightarrow> char" where
  "digit_char d = ''0123456789'' ! d"

text \<open>
  The decimal digits of a number that is not negative. Integers are in binary here, so
  that a long number is no long computation.
\<close>

function show_digits :: "int \<Rightarrow> string" where
  "show_digits n =
     (if n < 10 then [digit_char (nat n)]
      else show_digits (n div 10) @ [digit_char (nat (n mod 10))])"
  by pat_completeness auto
termination
  by (relation "measure nat") auto

declare show_digits.simps [simp del]

definition show_nat :: "nat \<Rightarrow> string" where
  "show_nat n = show_digits (int n)"

definition is_int :: "rat \<Rightarrow> bool" where
  "is_int q = (of_int \<lfloor>q\<rfloor> = q)"

text \<open>How often \<open>p\<close> divides \<open>n\<close>.\<close>

function count_factor :: "int \<Rightarrow> int \<Rightarrow> nat" where
  "count_factor p n =
     (if 2 \<le> p \<and> 0 < n \<and> n mod p = 0 then Suc (count_factor p (n div p)) else 0)"
  by pat_completeness auto
termination
  by (relation "measure (\<lambda>(p, n). nat n)") (auto intro: int_div_less_self)

declare count_factor.simps [simp del]

text \<open>
  The number of digits after the decimal point of a number with a finite decimal
  notation: its denominator is a product of twos and fives.
\<close>

definition decimal_places :: "rat \<Rightarrow> nat option" where
  "decimal_places q =
     (let d = snd (quotient_of q); a = count_factor 2 d; b = count_factor 5 d
      in if d = 2 ^ a * 5 ^ b then Some (max a b) else None)"

definition strip_zeros :: "string \<Rightarrow> string" where
  "strip_zeros s = rev (dropWhile (\<lambda>c. c = CHR ''0'') (rev s))"

text \<open>
  The finite numbers that the model computes with. A double has a shortest decimal
  notation, the one that \<open>String\<close> prints and that \<open>Number\<close> reads back. Every decimal
  \<open>m \<times> 10^e\<close> with an integer \<open>m\<close> of at most 15 digits and \<open>e\<close> from -30 to 30 is the
  shortest notation of a double, and no two of them of the same double. These decimals
  are the numbers of the model: on them printing, reading and comparing need no
  rounding. Any other rational (a notation of 16 or 17 digits, a decimal that no double
  has as its notation, a number too large or too small) is left out, and what would read
  its digits returns \<open>OutOfModel\<close>.
\<close>

definition modelled :: "rat \<Rightarrow> bool" where
  "modelled q =
     list_ex (\<lambda>e. is_int (shift10 q (- e)) \<and> \<bar>shift10 q (- e)\<bar> < 10 ^ 15) [- 30..30]"

definition known :: "jsnum \<Rightarrow> error + jsnum" where
  "known x = (case x of Fin q \<Rightarrow> (if modelled q then Inr x else Inl OutOfModel) | _ \<Rightarrow> Inr x)"

text \<open>
  A number of the model whose double has its very value: a binary fraction with a
  numerator of at most 53 bits. The sum, product or quotient of two such doubles is
  computed without rounding when it is such a number again.
\<close>

definition exact :: "rat \<Rightarrow> bool" where
  "exact q =
     (modelled q
      \<and> snd (quotient_of q) = 2 ^ count_factor 2 (snd (quotient_of q))
      \<and> \<bar>fst (quotient_of q)\<bar> < 2 ^ 53 * 2 ^ count_factor 2 \<bar>fst (quotient_of q)\<bar>)"

definition exactly :: "rat \<Rightarrow> rat \<Rightarrow> rat \<Rightarrow> jsnum option" where
  "exactly a b r = (if exact a \<and> exact b \<and> exact r then Some (Fin r) else None)"

text \<open>
  \<open>Number::toString\<close> for the digits \<open>s\<close> of a number \<open>0.s \<times> 10^n\<close>: an integer up to
  \<open>10^21\<close>, a decimal fraction down to \<open>10^-6\<close>, the exponent notation beyond.
\<close>

definition layout :: "string \<Rightarrow> int \<Rightarrow> string" where
  "layout s n =
     (let k = int (length s) in
      if k \<le> n \<and> n \<le> 21 then s @ replicate (nat (n - k)) (CHR ''0'')
      else if 0 < n \<and> n \<le> 21 then take (nat n) s @ ''.'' @ drop (nat n) s
      else if - 6 < n \<and> n \<le> 0 then ''0.'' @ replicate (nat (- n)) (CHR ''0'') @ s
      else (if k = 1 then s else take 1 s @ ''.'' @ drop 1 s)
           @ ''e'' @ (if 0 \<le> n - 1 then ''+'' else ''-'') @ show_digits \<bar>n - 1\<bar>)"

text \<open>\<open>String(n)\<close>: the notation of a number of the model.\<close>

fun num_to_string :: "jsnum \<Rightarrow> error + string" where
  "num_to_string NaN = Inr ''NaN''"
| "num_to_string PInf = Inr ''Infinity''"
| "num_to_string NInf = Inr ''-Infinity''"
| "num_to_string (Fin q) =
     (if q = 0 then Inr ''0''
      else if \<not> modelled q then Inl OutOfModel
      else (case decimal_places \<bar>q\<bar> of
              None \<Rightarrow> Inl OutOfModel
            | Some j \<Rightarrow>
                (let ds = show_digits \<lfloor>\<bar>q\<bar> * 10 ^ j\<rfloor>
                 in Inr ((if q < 0 then ''-'' else [])
                      @ layout (strip_zeros ds) (int (length ds) - int j)))))"

text \<open>
  \<open>Number(s)\<close> for a string: white space around it is dropped; the empty string is 0;
  then a signed decimal literal with an optional fraction and exponent, \<open>Infinity\<close>, or
  an unsigned literal in base 16, 8 or 2; anything else is \<open>NaN\<close>.
\<close>

definition is_space :: "char \<Rightarrow> bool" where
  "is_space c = (c \<in> set [CHR 0x09, CHR 0x0A, CHR 0x0B, CHR 0x0C, CHR 0x0D, CHR 0x20, CHR 0xA0])"

definition trim :: "string \<Rightarrow> string" where
  "trim s = rev (dropWhile is_space (rev (dropWhile is_space s)))"

definition is_digit :: "char \<Rightarrow> bool" where
  "is_digit c = (c \<in> set ''0123456789'')"

definition digit_of :: "string \<Rightarrow> char \<Rightarrow> nat option" where
  "digit_of alphabet c = find (\<lambda>i. alphabet ! i = c) [0..<length alphabet]"

text \<open>
  The number that one or more digits of base \<open>b\<close> denote. The alphabet lists the lower
  case digits and then the upper case letters, so an upper case letter has its index
  less \<open>b\<close> plus 10 as its value.
\<close>

definition read_base :: "nat \<Rightarrow> string \<Rightarrow> int option" where
  "read_base b s =
     (if s = [] then None
      else foldl
        (\<lambda>acc c.
           case acc of
             None \<Rightarrow> None
           | Some n \<Rightarrow>
               (case digit_of (take b ''0123456789abcdef'' @ take (b - 10) ''ABCDEF'') c of
                  None \<Rightarrow> None
                | Some d \<Rightarrow> Some (int b * n + int (if d < b then d else d - b + 10))))
        (Some 0) s)"

definition parse_exponent :: "string \<Rightarrow> int option" where
  "parse_exponent s =
     (case s of
        [] \<Rightarrow> Some 0
      | c # r \<Rightarrow>
          (if c = CHR ''e'' \<or> c = CHR ''E'' then
             (case r of
                CHR ''+'' # ds \<Rightarrow> read_base 10 ds
              | CHR ''-'' # ds \<Rightarrow> map_option uminus (read_base 10 ds)
              | _ \<Rightarrow> read_base 10 r)
           else None))"

definition parse_unsigned :: "string \<Rightarrow> jsnum" where
  "parse_unsigned s =
     (if s = ''Infinity'' then PInf
      else
        (let ip = takeWhile is_digit s; r1 = dropWhile is_digit s in
         case r1 of
           CHR ''.'' # r \<Rightarrow>
             (let fp = takeWhile is_digit r; r2 = dropWhile is_digit r in
              if ip = [] \<and> fp = [] then NaN
              else (case (read_base 10 (ip @ fp), parse_exponent r2) of
                      (Some m, Some e) \<Rightarrow> Fin (shift10 (of_int m) (e - int (length fp)))
                    | _ \<Rightarrow> NaN))
         | _ \<Rightarrow>
             (case (read_base 10 ip, parse_exponent r1) of
                (Some m, Some e) \<Rightarrow> Fin (shift10 (of_int m) e)
              | _ \<Rightarrow> NaN)))"

definition read_number :: "string \<Rightarrow> jsnum" where
  "read_number s =
     (let t = trim s in
      case t of
        [] \<Rightarrow> Fin 0
      | CHR ''+'' # u \<Rightarrow> parse_unsigned u
      | CHR ''-'' # u \<Rightarrow> num_neg (parse_unsigned u)
      | CHR ''0'' # x # u \<Rightarrow>
          (if x = CHR ''x'' \<or> x = CHR ''X''
             then (case read_base 16 u of None \<Rightarrow> NaN | Some n \<Rightarrow> Fin (of_int n))
           else if x = CHR ''o'' \<or> x = CHR ''O''
             then (case read_base 8 u of None \<Rightarrow> NaN | Some n \<Rightarrow> Fin (of_int n))
           else if x = CHR ''b'' \<or> x = CHR ''B''
             then (case read_base 2 u of None \<Rightarrow> NaN | Some n \<Rightarrow> Fin (of_int n))
           else parse_unsigned t)
      | _ \<Rightarrow> parse_unsigned t)"

text \<open>
  The literal that was read is rounded to a double. For a number of the model that is
  the double of this name; any other literal is left out.
\<close>

definition string_to_number :: "string \<Rightarrow> error + jsnum" where
  "string_to_number s = known (read_number s)"

subsection \<open>Conversions and operators of the language\<close>

text \<open>\<open>!!x\<close>: what \<open>&&\<close>, \<open>||\<close> and \<open>!\<close> test.\<close>

fun to_boolean :: "val \<Rightarrow> bool" where
  "to_boolean VUndef = False"
| "to_boolean VNull = False"
| "to_boolean (VBool b) = b"
| "to_boolean (VNum n) = (n \<noteq> NaN \<and> n \<noteq> Fin 0)"
| "to_boolean (VStr s) = (s \<noteq> [])"
| "to_boolean (VRef a) = True"

text \<open>\<open>a === b\<close>, and the \<open>SameValueZero\<close> of \<open>includes\<close> and \<open>Set\<close>.\<close>

definition strict_eq :: "val \<Rightarrow> val \<Rightarrow> bool" where
  "strict_eq a b = (a = b \<and> a \<noteq> VNum NaN)"

definition same_value_zero :: "val \<Rightarrow> val \<Rightarrow> bool" where
  "same_value_zero a b = (a = b)"

fun to_number :: "val \<Rightarrow> error + jsnum" where
  "to_number VUndef = Inr NaN"
| "to_number VNull = Inr (Fin 0)"
| "to_number (VBool b) = Inr (Fin (if b then 1 else 0))"
| "to_number (VNum n) = known n"
| "to_number (VStr s) = string_to_number s"
| "to_number (VRef a) = Inl OutOfModel"

text \<open>\<open>x < y\<close> on numbers; \<open>None\<close> is the undefined of a comparison with \<open>NaN\<close>.\<close>

fun num_less :: "jsnum \<Rightarrow> jsnum \<Rightarrow> bool option" where
  "num_less NaN y = None"
| "num_less x NaN = None"
| "num_less PInf y = Some False"
| "num_less NInf y = Some (y \<noteq> NInf)"
| "num_less (Fin a) PInf = Some True"
| "num_less (Fin a) NInf = Some False"
| "num_less (Fin a) (Fin b) = Some (a < b)"

subsection \<open>Strings of values, property keys\<close>

fun prim_to_string :: "val \<Rightarrow> error + string" where
  "prim_to_string VUndef = Inr ''undefined''"
| "prim_to_string VNull = Inr ''null''"
| "prim_to_string (VBool b) = Inr (if b then ''true'' else ''false'')"
| "prim_to_string (VNum n) = num_to_string n"
| "prim_to_string (VStr s) = Inr s"
| "prim_to_string (VRef a) = Inl OutOfModel"

text \<open>
  \<open>String(v)\<close>, also the property key that \<open>res[v]\<close> uses. An object prints through
  \<open>Object.prototype.toString\<close> unless a key \<open>toString\<close> of its own hides that method: the
  value under it is no function, and neither \<open>valueOf\<close> gives a primitive. An array
  prints as \<open>join(',')\<close> of its elements, where \<open>null\<close> and \<open>undefined\<close> give the empty
  string. The fuel bounds the nesting; the cells of the store are enough of it unless an
  array contains itself.
\<close>

fun to_string_fuel :: "nat \<Rightarrow> heap \<Rightarrow> val \<Rightarrow> error + string"
  and join_fuel :: "nat \<Rightarrow> heap \<Rightarrow> string \<Rightarrow> val list \<Rightarrow> error + string" where
  "to_string_fuel n h (VRef a) =
     (case n of
        0 \<Rightarrow> Inl OutOfModel
      | Suc m \<Rightarrow>
          (case cell_at h a of
             None \<Rightarrow> Inl OutOfModel
           | Some (CObj kvs) \<Rightarrow>
               (if map_of kvs ''toString'' = None then Inr ''[object Object]'' else Inl TypeError)
           | Some (CArr xs) \<Rightarrow> join_fuel m h '','' xs))"
| "to_string_fuel n h VUndef = prim_to_string VUndef"
| "to_string_fuel n h VNull = prim_to_string VNull"
| "to_string_fuel n h (VBool b) = prim_to_string (VBool b)"
| "to_string_fuel n h (VNum x) = prim_to_string (VNum x)"
| "to_string_fuel n h (VStr s) = prim_to_string (VStr s)"
| "join_fuel n h sep [] = Inr []"
| "join_fuel n h sep (x # xs) =
     (case (if x = VUndef \<or> x = VNull then Inr [] else to_string_fuel n h x) of
        Inl e \<Rightarrow> Inl e
      | Inr s \<Rightarrow>
          (if xs = [] then Inr s
           else (case join_fuel n h sep xs of Inl e \<Rightarrow> Inl e | Inr t \<Rightarrow> Inr (s @ sep @ t))))"

definition to_string :: "heap \<Rightarrow> val \<Rightarrow> error + string" where
  "to_string h v = to_string_fuel (length h) h v"

subsection \<open>The relational operators\<close>

text \<open>
  \<open>ToPrimitive\<close>: an array or an object on either side of a comparison is first
  converted to its string, as by \<open>String\<close> (\<open>valueOf\<close> returns the object itself, then
  \<open>toString\<close> is tried).
\<close>

definition to_primitive :: "heap \<Rightarrow> val \<Rightarrow> error + val" where
  "to_primitive h v = (case v of VRef a \<Rightarrow> map_sum id VStr (to_string h v) | _ \<Rightarrow> Inr v)"

text \<open>The two operands as primitives, the left one converted first.\<close>

definition primitives :: "heap \<Rightarrow> val \<Rightarrow> val \<Rightarrow> error + val \<times> val" where
  "primitives h a b =
     (case to_primitive h a of
        Inl e \<Rightarrow> Inl e
      | Inr pa \<Rightarrow> (case to_primitive h b of Inl e \<Rightarrow> Inl e | Inr pb \<Rightarrow> Inr (pa, pb)))"

text \<open>
  The relational comparison \<open>IsLessThan\<close> of two primitives: two strings by code units,
  anything else after conversion to numbers.
\<close>

fun is_less :: "val \<Rightarrow> val \<Rightarrow> error + bool option" where
  "is_less (VStr s) (VStr t) = Inr (Some (s < t))"
| "is_less a b =
     (case to_number a of
        Inl e \<Rightarrow> Inl e
      | Inr x \<Rightarrow> (case to_number b of Inl e \<Rightarrow> Inl e | Inr y \<Rightarrow> Inr (num_less x y)))"

text \<open>\<open>a > b\<close>, \<open>a >= b\<close>, \<open>a < b\<close>, \<open>a <= b\<close>.\<close>

definition js_gt :: "heap \<Rightarrow> val \<Rightarrow> val \<Rightarrow> error + bool" where
  "js_gt h a b =
     (case primitives h a b of
        Inl e \<Rightarrow> Inl e
      | Inr p \<Rightarrow> map_sum id (\<lambda>r. r = Some True) (is_less (snd p) (fst p)))"

definition js_gte :: "heap \<Rightarrow> val \<Rightarrow> val \<Rightarrow> error + bool" where
  "js_gte h a b =
     (case primitives h a b of
        Inl e \<Rightarrow> Inl e
      | Inr p \<Rightarrow> map_sum id (\<lambda>r. r = Some False) (is_less (fst p) (snd p)))"

definition js_lt :: "heap \<Rightarrow> val \<Rightarrow> val \<Rightarrow> error + bool" where
  "js_lt h a b =
     (case primitives h a b of
        Inl e \<Rightarrow> Inl e
      | Inr p \<Rightarrow> map_sum id (\<lambda>r. r = Some True) (is_less (fst p) (snd p)))"

definition js_lte :: "heap \<Rightarrow> val \<Rightarrow> val \<Rightarrow> error + bool" where
  "js_lte h a b =
     (case primitives h a b of
        Inl e \<Rightarrow> Inl e
      | Inr p \<Rightarrow> map_sum id (\<lambda>r. r = Some False) (is_less (snd p) (fst p)))"

text \<open>The index that a key names in a sequence of \<open>n\<close> elements.\<close>

definition index_of :: "string \<Rightarrow> nat \<Rightarrow> nat option" where
  "index_of k n = find (\<lambda>i. show_nat i = k) [0..<n]"

definition from_proto :: "host \<Rightarrow> kind \<Rightarrow> string \<Rightarrow> error + val" where
  "from_proto H k name = (if inherited H k name then Inl OutOfModel else Inr VUndef)"

text \<open>\<open>value?.[prop]\<close>\<close>

fun opt_member :: "host \<Rightarrow> heap \<Rightarrow> val \<Rightarrow> string \<Rightarrow> error + val" where
  "opt_member H h VUndef prop = Inr VUndef"
| "opt_member H h VNull prop = Inr VUndef"
| "opt_member H h (VBool b) prop = from_proto H KBoolean prop"
| "opt_member H h (VNum n) prop = from_proto H KNumber prop"
| "opt_member H h (VStr s) prop =
     (if prop = ''length'' then Inr (VNum (Fin (of_nat (length s))))
      else (case index_of prop (length s) of
              Some i \<Rightarrow> Inr (VStr [s ! i])
            | None \<Rightarrow> from_proto H KString prop))"
| "opt_member H h (VRef a) prop =
     (case cell_at h a of
        None \<Rightarrow> Inl OutOfModel
      | Some (CArr xs) \<Rightarrow>
          (if prop = ''length'' then Inr (VNum (Fin (of_nat (length xs))))
           else (case index_of prop (length xs) of
                   Some i \<Rightarrow> Inr (xs ! i)
                 | None \<Rightarrow> from_proto H KArray prop))
      | Some (CObj kvs) \<Rightarrow>
          (case map_of kvs prop of
             Some v \<Rightarrow> Inr v
           | None \<Rightarrow> from_proto H KObject prop))"

text \<open>\<open>v ?? null\<close>\<close>

definition or_null :: "val \<Rightarrow> val" where
  "or_null v = (if v = VUndef \<or> v = VNull then VNull else v)"

text \<open>
  \<open>obj[key] = v\<close> on an object literal under construction. The key \<open>__proto__\<close> runs the
  setter of \<open>Object.prototype\<close> instead of storing a property.
\<close>

definition obj_set :: "(string \<times> val) list \<Rightarrow> string \<Rightarrow> val \<Rightarrow> error + (string \<times> val) list" where
  "obj_set obj key v = (if key = ''__proto__'' then Inl OutOfModel else Inr (AList.update key v obj))"

text \<open>The elements of an array, for a method that only arrays have.\<close>

fun as_array :: "heap \<Rightarrow> val \<Rightarrow> error + val list" where
  "as_array h (VRef a) =
     (case cell_at h a of
        Some (CArr xs) \<Rightarrow> Inr xs
      | Some (CObj kvs) \<Rightarrow> Inl TypeError
      | None \<Rightarrow> Inl OutOfModel)"
| "as_array h v = Inl TypeError"

text \<open>What \<open>for (const item of data)\<close> and \<open>...data\<close> visit.\<close>

fun iterate :: "heap \<Rightarrow> val \<Rightarrow> error + val list" where
  "iterate h (VStr s) = Inr (map (\<lambda>c. VStr [c]) s)"
| "iterate h (VRef a) =
     (case cell_at h a of
        Some (CArr xs) \<Rightarrow> Inr xs
      | Some (CObj kvs) \<Rightarrow> Inl TypeError
      | None \<Rightarrow> Inl OutOfModel)"
| "iterate h v = Inl TypeError"

section \<open>functions.ts\<close>

subsection \<open>buildFunction\<close>

text \<open>
  \<open>buildFunction(fn)\<close> takes the compiled arguments, runs them on the data from left to
  right and hands the results to \<open>fn\<close>. A parameter of \<open>fn\<close> with no argument is
  \<open>undefined\<close>.
\<close>

definition arg :: "val list \<Rightarrow> nat \<Rightarrow> val" where
  "arg vs i = (if i < length vs then vs ! i else VUndef)"

definition buildFunction :: "(val list \<Rightarrow> heap \<Rightarrow> val res) \<Rightarrow> evaluator list \<Rightarrow> evaluator" where
  "buildFunction fn compiledArgs data h =
     (if length compiledArgs = 1 then
        (case (compiledArgs ! 0) data h of
           (Inl e, h1) \<Rightarrow> (Inl e, h1)
         | (Inr a, h1) \<Rightarrow> fn [a] h1)
      else if length compiledArgs = 2 then
        (case (compiledArgs ! 0) data h of
           (Inl e, h1) \<Rightarrow> (Inl e, h1)
         | (Inr a, h1) \<Rightarrow>
             (case (compiledArgs ! 1) data h1 of
                (Inl e, h2) \<Rightarrow> (Inl e, h2)
              | (Inr b, h2) \<Rightarrow> fn [a, b] h2))
      else
        (case mapM (\<lambda>a. a data) compiledArgs h of
           (Inl e, h1) \<Rightarrow> (Inl e, h1)
         | (Inr vs, h1) \<Rightarrow> fn vs h1))"

text \<open>A function of the values alone: it neither reads nor writes the store.\<close>

definition pure_fn :: "(val list \<Rightarrow> error + val) \<Rightarrow> val list \<Rightarrow> heap \<Rightarrow> val res" where
  "pure_fn f vs h = (f vs, h)"

subsection \<open>Truthiness and the logical functions\<close>

definition truthy :: "val \<Rightarrow> bool" where
  "truthy x = (x \<noteq> VNull \<and> x \<noteq> VNum (Fin 0) \<and> x \<noteq> VBool False)"

definition and_fn :: "val list \<Rightarrow> error + val" where
  "and_fn vs = Inr (VBool (to_boolean (arg vs 0) \<and> to_boolean (arg vs 1)))"

definition or_fn :: "val list \<Rightarrow> error + val" where
  "or_fn vs = Inr (VBool (to_boolean (arg vs 0) \<or> to_boolean (arg vs 1)))"

definition not_fn :: "val list \<Rightarrow> error + val" where
  "not_fn vs = Inr (VBool (\<not> to_boolean (arg vs 0)))"

subsection \<open>Comparison\<close>

definition eq_fn :: "val list \<Rightarrow> error + val" where
  "eq_fn vs = Inr (VBool (strict_eq (arg vs 0) (arg vs 1)))"

definition ne_fn :: "val list \<Rightarrow> error + val" where
  "ne_fn vs = Inr (VBool (\<not> strict_eq (arg vs 0) (arg vs 1)))"

text \<open>The relational operators read the store: an operand may be an array or an object.\<close>

definition gt_fn :: "val list \<Rightarrow> heap \<Rightarrow> val res" where
  "gt_fn vs h = (map_sum id VBool (js_gt h (arg vs 0) (arg vs 1)), h)"

definition gte_fn :: "val list \<Rightarrow> heap \<Rightarrow> val res" where
  "gte_fn vs h = (map_sum id VBool (js_gte h (arg vs 0) (arg vs 1)), h)"

definition lt_fn :: "val list \<Rightarrow> heap \<Rightarrow> val res" where
  "lt_fn vs h = (map_sum id VBool (js_lt h (arg vs 0) (arg vs 1)), h)"

definition lte_fn :: "val list \<Rightarrow> heap \<Rightarrow> val res" where
  "lte_fn vs h = (map_sum id VBool (js_lte h (arg vs 0) (arg vs 1)), h)"

subsection \<open>pipe, object, array, get\<close>

fun pipe_fn :: "evaluator list \<Rightarrow> evaluator" where
  "pipe_fn [] data h = (Inr data, h)"
| "pipe_fn (evaluator # entries) data h =
     (case evaluator data h of
        (Inl e, h1) \<Rightarrow> (Inl e, h1)
      | (Inr v, h1) \<Rightarrow> pipe_fn entries v h1)"

text \<open>
  The loop \<open>for (const [key, getter] of getters) obj[key] = getter(data)\<close> of \<open>object\<close> and
  of \<open>_pick\<close>. The object under construction is local until the loop ends, so the model
  stores it when it is returned.
\<close>

fun run_getters ::
  "(string \<times> evaluator) list \<Rightarrow> val \<Rightarrow> (string \<times> val) list \<Rightarrow> heap \<Rightarrow> (string \<times> val) list res" where
  "run_getters [] data obj h = (Inr obj, h)"
| "run_getters ((key, getter) # getters) data obj h =
     (case getter data h of
        (Inl e, h1) \<Rightarrow> (Inl e, h1)
      | (Inr v, h1) \<Rightarrow>
          (case obj_set obj key v of
             Inl e \<Rightarrow> (Inl e, h1)
           | Inr obj' \<Rightarrow> run_getters getters data obj' h1))"

definition object_fn :: "(string \<times> evaluator) list \<Rightarrow> evaluator" where
  "object_fn getters data h =
     (case run_getters getters data [] h of
        (Inl e, h1) \<Rightarrow> (Inl e, h1)
      | (Inr obj, h1) \<Rightarrow> alloc (CObj obj) h1)"

definition array_fn :: "evaluator list \<Rightarrow> evaluator" where
  "array_fn items data h =
     (case mapM (\<lambda>item. item data) items h of
        (Inl e, h1) \<Rightarrow> (Inl e, h1)
      | (Inr vs, h1) \<Rightarrow> alloc (CArr vs) h1)"

fun walk :: "host \<Rightarrow> heap \<Rightarrow> val \<Rightarrow> string list \<Rightarrow> error + val" where
  "walk H h v [] = Inr v"
| "walk H h v (prop # path) =
     (case opt_member H h v prop of
        Inl e \<Rightarrow> Inl e
      | Inr v' \<Rightarrow> walk H h v' path)"

definition get_fn :: "host \<Rightarrow> string list \<Rightarrow> evaluator" where
  "get_fn H path data h =
     (if length path = 0 then (Inr (or_null data), h)
      else if length path = 1 then (map_sum id or_null (opt_member H h data (path ! 0)), h)
      else (map_sum id or_null (walk H h data path), h))"

subsection \<open>map, filter, sort, reverse, pick\<close>

definition map_fn :: "evaluator \<Rightarrow> evaluator" where
  "map_fn callback data h =
     (case as_array h data of
        Inl e \<Rightarrow> (Inl e, h)
      | Inr xs \<Rightarrow>
          (case mapM callback xs h of
             (Inl e, h1) \<Rightarrow> (Inl e, h1)
           | (Inr ys, h1) \<Rightarrow> alloc (CArr ys) h1))"

fun filterM :: "evaluator \<Rightarrow> val list \<Rightarrow> heap \<Rightarrow> val list res" where
  "filterM predicate [] h = (Inr [], h)"
| "filterM predicate (item # items) h =
     (case predicate item h of
        (Inl e, h1) \<Rightarrow> (Inl e, h1)
      | (Inr keep, h1) \<Rightarrow>
          (case filterM predicate items h1 of
             (Inl e, h2) \<Rightarrow> (Inl e, h2)
           | (Inr kept, h2) \<Rightarrow> (Inr (if truthy keep then item # kept else kept), h2)))"

definition filter_fn :: "evaluator \<Rightarrow> evaluator" where
  "filter_fn predicate data h =
     (case as_array h data of
        Inl e \<Rightarrow> (Inl e, h)
      | Inr xs \<Rightarrow>
          (case filterM predicate xs h of
             (Inl e, h1) \<Rightarrow> (Inl e, h1)
           | (Inr ys, h1) \<Rightarrow> alloc (CArr ys) h1))"

text \<open>\<open>a > b ? sign : a < b ? -sign : 0\<close> on the keys of the two items.\<close>

definition compare :: "evaluator \<Rightarrow> int \<Rightarrow> val \<Rightarrow> val \<Rightarrow> heap \<Rightarrow> int res" where
  "compare getter sign itemA itemB h =
     (case getter itemA h of
        (Inl e, h1) \<Rightarrow> (Inl e, h1)
      | (Inr a, h1) \<Rightarrow>
          (case getter itemB h1 of
             (Inl e, h2) \<Rightarrow> (Inl e, h2)
           | (Inr b, h2) \<Rightarrow>
               (case js_gt h2 a b of
                  Inl e \<Rightarrow> (Inl e, h2)
                | Inr True \<Rightarrow> (Inr sign, h2)
                | Inr False \<Rightarrow>
                    (case js_lt h2 a b of
                       Inl e \<Rightarrow> (Inl e, h2)
                     | Inr True \<Rightarrow> (Inr (- sign), h2)
                     | Inr False \<Rightarrow> (Inr 0, h2)))))"

text \<open>
  \<open>Array.prototype.sort\<close> with a comparator is stable, and that fixes its result when the
  comparator is consistent: whatever two elements it is asked about it returns a number,
  the opposite sign for the opposite question, and the elements it does not put after
  one another are ordered transitively. The order of the result is left to the
  implementation otherwise, and so is which pairs are compared: the model has no result
  then. \<open>order_of\<close> asks the comparator on the store at hand and forgets what it
  allocates.
\<close>

definition order_of :: "(val \<Rightarrow> val \<Rightarrow> heap \<Rightarrow> int res) \<Rightarrow> heap \<Rightarrow> val \<Rightarrow> val \<Rightarrow> int option" where
  "order_of cmp h x y = (case fst (cmp x y h) of Inl e \<Rightarrow> None | Inr c \<Rightarrow> Some (sgn c))"

definition opposite :: "int option list list \<Rightarrow> nat \<Rightarrow> nat \<Rightarrow> bool" where
  "opposite m i j =
     (case (m ! i ! j, m ! j ! i) of (Some c, Some d) \<Rightarrow> d = - c | _ \<Rightarrow> False)"

definition not_after :: "int option list list \<Rightarrow> nat \<Rightarrow> nat \<Rightarrow> bool" where
  "not_after m i j = (case m ! i ! j of Some c \<Rightarrow> c \<le> 0 | None \<Rightarrow> False)"

definition consistent_table :: "int option list list \<Rightarrow> bool" where
  "consistent_table m =
     (let n = [0..<length m] in
      list_all (\<lambda>i. list_all (\<lambda>j. opposite m i j) n) n
      \<and> list_all (\<lambda>i. list_all (\<lambda>j. list_all (\<lambda>k.
            if not_after m i j \<and> not_after m j k then not_after m i k else True) n) n) n)"

definition consistent :: "(val \<Rightarrow> val \<Rightarrow> heap \<Rightarrow> int res) \<Rightarrow> heap \<Rightarrow> val list \<Rightarrow> bool" where
  "consistent cmp h xs = consistent_table (map (\<lambda>x. map (order_of cmp h x) xs) xs)"

text \<open>
  The stable sort, by insertion: an element goes before the first one it does not compare
  greater than. Elements that are \<open>undefined\<close> go last and never reach the comparator, and
  fewer than two elements are not compared at all.
\<close>

fun insert_sorted ::
  "(val \<Rightarrow> val \<Rightarrow> heap \<Rightarrow> int res) \<Rightarrow> val \<Rightarrow> val list \<Rightarrow> heap \<Rightarrow> val list res" where
  "insert_sorted cmp x [] h = (Inr [x], h)"
| "insert_sorted cmp x (y # ys) h =
     (case cmp x y h of
        (Inl e, h1) \<Rightarrow> (Inl e, h1)
      | (Inr c, h1) \<Rightarrow>
          (if c \<le> 0 then (Inr (x # y # ys), h1)
           else (case insert_sorted cmp x ys h1 of
                   (Inl e, h2) \<Rightarrow> (Inl e, h2)
                 | (Inr zs, h2) \<Rightarrow> (Inr (y # zs), h2))))"

fun sort_list :: "(val \<Rightarrow> val \<Rightarrow> heap \<Rightarrow> int res) \<Rightarrow> val list \<Rightarrow> heap \<Rightarrow> val list res" where
  "sort_list cmp [] h = (Inr [], h)"
| "sort_list cmp (x # xs) h =
     (case sort_list cmp xs h of
        (Inl e, h1) \<Rightarrow> (Inl e, h1)
      | (Inr ys, h1) \<Rightarrow> insert_sorted cmp x ys h1)"

definition array_sort :: "(val \<Rightarrow> val \<Rightarrow> heap \<Rightarrow> int res) \<Rightarrow> val list \<Rightarrow> heap \<Rightarrow> val list res" where
  "array_sort cmp xs h =
     (if length (filter (\<lambda>x. x \<noteq> VUndef) xs) < 2 then
        (Inr (filter (\<lambda>x. x \<noteq> VUndef) xs @ filter (\<lambda>x. x = VUndef) xs), h)
      else if \<not> consistent cmp h (filter (\<lambda>x. x \<noteq> VUndef) xs) then (Inl OutOfModel, h)
      else
        (case sort_list cmp (filter (\<lambda>x. x \<noteq> VUndef) xs) h of
           (Inl e, h1) \<Rightarrow> (Inl e, h1)
         | (Inr ys, h1) \<Rightarrow> (Inr (ys @ filter (\<lambda>x. x = VUndef) xs), h1)))"

text \<open>
  \<open>data.slice().sort(compare)\<close>: the copy is stored first, at the next address, and the
  sort then overwrites the copy with its result.
\<close>

definition sort_fn :: "evaluator \<Rightarrow> bool \<Rightarrow> evaluator" where
  "sort_fn getter desc data h =
     (case as_array h data of
        Inl e \<Rightarrow> (Inl e, h)
      | Inr xs \<Rightarrow>
          (case array_sort (compare getter (if desc then - 1 else 1)) xs (h @ [CArr xs]) of
             (Inl e, h1) \<Rightarrow> (Inl e, h1)
           | (Inr ys, h1) \<Rightarrow> (Inr (VRef (length h)), h1[length h := CArr ys])))"

definition reverse_fn :: "evaluator" where
  "reverse_fn data h =
     (case as_array h data of
        Inl e \<Rightarrow> (Inl e, h)
      | Inr xs \<Rightarrow> alloc (CArr (rev xs)) h)"

definition pick_one :: "(string \<times> evaluator) list \<Rightarrow> evaluator" where
  "pick_one getters object h =
     (case run_getters getters object [] h of
        (Inl e, h1) \<Rightarrow> (Inl e, h1)
      | (Inr out, h1) \<Rightarrow> alloc (CObj out) h1)"

text \<open>A property \<open>['get', ...path]\<close> is picked under the last key of its path.\<close>

definition pick_getter :: "host \<Rightarrow> string list \<Rightarrow> string \<times> evaluator" where
  "pick_getter H path = ((if path = [] then ''undefined'' else last path), get_fn H path)"

definition is_array :: "heap \<Rightarrow> val \<Rightarrow> bool" where
  "is_array h v =
     (case v of
        VRef a \<Rightarrow> (case cell_at h a of Some (CArr xs) \<Rightarrow> True | _ \<Rightarrow> False)
      | _ \<Rightarrow> False)"

definition pick_fn :: "host \<Rightarrow> string list list \<Rightarrow> evaluator" where
  "pick_fn H properties data h =
     (if is_array h data then
        (case as_array h data of
           Inl e \<Rightarrow> (Inl e, h)
         | Inr xs \<Rightarrow>
             (case mapM (pick_one (map (pick_getter H) properties)) xs h of
                (Inl e, h1) \<Rightarrow> (Inl e, h1)
              | (Inr ys, h1) \<Rightarrow> alloc (CArr ys) h1))
      else pick_one (map (pick_getter H) properties) data h)"

subsection \<open>groupBy, keyBy, uniq\<close>

text \<open>
  The loop of \<open>groupBy\<close>. \<open>res\<close> is local until it is returned, so the model keeps it as
  the list of its keys with the addresses of their arrays and stores it at the end; the
  arrays are in the store, and \<open>push\<close> updates them there. \<open>res[value]\<close> also finds what
  \<open>Object.prototype\<close> holds under that name, which is truthy and has no \<open>push\<close>.
\<close>

fun group_loop ::
  "host \<Rightarrow> evaluator \<Rightarrow> val list \<Rightarrow> (string \<times> nat) list \<Rightarrow> heap \<Rightarrow> (string \<times> nat) list res" where
  "group_loop H getter [] res h = (Inr res, h)"
| "group_loop H getter (item # items) res h =
     (case getter item h of
        (Inl e, h1) \<Rightarrow> (Inl e, h1)
      | (Inr v, h1) \<Rightarrow>
          (case to_string h1 v of
             Inl e \<Rightarrow> (Inl e, h1)
           | Inr key \<Rightarrow>
               (case map_of res key of
                  Some g \<Rightarrow>
                    (case cell_at h1 g of
                       Some (CArr xs) \<Rightarrow> group_loop H getter items res (h1[g := CArr (xs @ [item])])
                     | _ \<Rightarrow> (Inl OutOfModel, h1))
                | None \<Rightarrow>
                    (if inherited H KObject key then (Inl TypeError, h1)
                     else group_loop H getter items (res @ [(key, length h1)]) (h1 @ [CArr [item]])))))"

definition groupBy_fn :: "host \<Rightarrow> evaluator \<Rightarrow> evaluator" where
  "groupBy_fn H getter data h =
     (case iterate h data of
        Inl e \<Rightarrow> (Inl e, h)
      | Inr items \<Rightarrow>
          (case group_loop H getter items [] h of
             (Inl e, h1) \<Rightarrow> (Inl e, h1)
           | (Inr res, h1) \<Rightarrow> alloc (CObj (map (\<lambda>(key, g). (key, VRef g)) res)) h1))"

text \<open>The loop of \<open>keyBy\<close>; \<open>value in res\<close> also looks at \<open>Object.prototype\<close>.\<close>

fun key_loop ::
  "host \<Rightarrow> evaluator \<Rightarrow> val list \<Rightarrow> (string \<times> val) list \<Rightarrow> heap \<Rightarrow> (string \<times> val) list res" where
  "key_loop H getter [] res h = (Inr res, h)"
| "key_loop H getter (item # items) res h =
     (case getter item h of
        (Inl e, h1) \<Rightarrow> (Inl e, h1)
      | (Inr v, h1) \<Rightarrow>
          (case to_string h1 v of
             Inl e \<Rightarrow> (Inl e, h1)
           | Inr key \<Rightarrow>
               (if map_of res key \<noteq> None \<or> inherited H KObject key
                then key_loop H getter items res h1
                else (case obj_set res key item of
                        Inl e \<Rightarrow> (Inl e, h1)
                      | Inr res' \<Rightarrow> key_loop H getter items res' h1))))"

definition keyBy_fn :: "host \<Rightarrow> evaluator \<Rightarrow> evaluator" where
  "keyBy_fn H getter data h =
     (case iterate h data of
        Inl e \<Rightarrow> (Inl e, h)
      | Inr items \<Rightarrow>
          (case key_loop H getter items [] h of
             (Inl e, h1) \<Rightarrow> (Inl e, h1)
           | (Inr res, h1) \<Rightarrow> alloc (CObj res) h1))"

text \<open>
  \<open>new Set(data)\<close> adds the elements in turn; \<open>add\<close> keeps the set as it is when it holds
  the element already. A \<open>Set\<close> of \<open>null\<close> or \<open>undefined\<close> is empty.
\<close>

definition set_add :: "val list \<Rightarrow> val \<Rightarrow> val list" where
  "set_add seen x = (if list_ex (\<lambda>y. same_value_zero y x) seen then seen else seen @ [x])"

definition new_set :: "heap \<Rightarrow> val \<Rightarrow> error + val list" where
  "new_set h data =
     (if data = VUndef \<or> data = VNull then Inr []
      else (case iterate h data of
              Inl e \<Rightarrow> Inl e
            | Inr xs \<Rightarrow> Inr (foldl set_add [] xs)))"

definition uniq_fn :: "evaluator" where
  "uniq_fn data h =
     (case new_set h data of
        Inl e \<Rightarrow> (Inl e, h)
      | Inr xs \<Rightarrow> alloc (CArr xs) h)"

subsection \<open>prod, sum, average, min, max\<close>

text \<open>
  \<open>x + y\<close> on numbers. \<open>None\<close> is a sum that the model does not compute: of two finite
  numbers it has the sums that need no rounding.
\<close>

fun num_add :: "jsnum \<Rightarrow> jsnum \<Rightarrow> jsnum option" where
  "num_add NaN y = Some NaN"
| "num_add x NaN = Some NaN"
| "num_add PInf NInf = Some NaN"
| "num_add NInf PInf = Some NaN"
| "num_add PInf y = Some PInf"
| "num_add NInf y = Some NInf"
| "num_add (Fin a) PInf = Some PInf"
| "num_add (Fin a) NInf = Some NInf"
| "num_add (Fin a) (Fin b) = exactly a b (a + b)"

text \<open>An infinity times a finite number: zero gives \<open>NaN\<close>, the sign decides otherwise.\<close>

definition inf_times :: "jsnum \<Rightarrow> rat \<Rightarrow> jsnum" where
  "inf_times x a = (if a = 0 then NaN else if 0 < a then x else num_neg x)"

fun num_mul :: "jsnum \<Rightarrow> jsnum \<Rightarrow> jsnum option" where
  "num_mul NaN y = Some NaN"
| "num_mul x NaN = Some NaN"
| "num_mul PInf PInf = Some PInf"
| "num_mul PInf NInf = Some NInf"
| "num_mul NInf PInf = Some NInf"
| "num_mul NInf NInf = Some PInf"
| "num_mul PInf (Fin b) = Some (inf_times PInf b)"
| "num_mul NInf (Fin b) = Some (inf_times NInf b)"
| "num_mul (Fin a) PInf = Some (inf_times PInf a)"
| "num_mul (Fin a) NInf = Some (inf_times NInf a)"
| "num_mul (Fin a) (Fin b) = exactly a b (a * b)"

text \<open>\<open>x / n\<close> for the length \<open>n\<close> of an array.\<close>

definition num_div_length :: "jsnum \<Rightarrow> nat \<Rightarrow> jsnum option" where
  "num_div_length x n =
     (case x of
        Fin a \<Rightarrow>
          (if n = 0 then Some (if a = 0 then NaN else if 0 < a then PInf else NInf)
           else exactly a (of_nat n) (a / of_nat n))
      | _ \<Rightarrow> Some x)"

definition is_ref :: "val \<Rightarrow> bool" where
  "is_ref v = (case v of VRef a \<Rightarrow> True | _ \<Rightarrow> False)"

definition is_str :: "val \<Rightarrow> bool" where
  "is_str v = (case v of VStr s \<Rightarrow> True | _ \<Rightarrow> False)"

text \<open>
  \<open>a + b\<close>: the concatenation of the two strings when either operand is a string, the sum
  of the two numbers otherwise. An array or object operand is left out.
\<close>

definition js_add :: "val \<Rightarrow> val \<Rightarrow> error + val" where
  "js_add a b =
     (if is_ref a \<or> is_ref b then Inl OutOfModel
      else if is_str a \<or> is_str b then
        (case prim_to_string a of
           Inl e \<Rightarrow> Inl e
         | Inr s \<Rightarrow> (case prim_to_string b of Inl e \<Rightarrow> Inl e | Inr t \<Rightarrow> Inr (VStr (s @ t))))
      else
        (case to_number a of
           Inl e \<Rightarrow> Inl e
         | Inr x \<Rightarrow>
             (case to_number b of
                Inl e \<Rightarrow> Inl e
              | Inr y \<Rightarrow> (case num_add x y of None \<Rightarrow> Inl OutOfModel | Some z \<Rightarrow> Inr (VNum z)))))"

definition js_mul :: "val \<Rightarrow> val \<Rightarrow> error + val" where
  "js_mul a b =
     (case to_number a of
        Inl e \<Rightarrow> Inl e
      | Inr x \<Rightarrow>
          (case to_number b of
             Inl e \<Rightarrow> Inl e
           | Inr y \<Rightarrow> (case num_mul x y of None \<Rightarrow> Inl OutOfModel | Some z \<Rightarrow> Inr (VNum z))))"

fun fold_err :: "('a \<Rightarrow> 'b \<Rightarrow> error + 'a) \<Rightarrow> 'a \<Rightarrow> 'b list \<Rightarrow> error + 'a" where
  "fold_err f acc [] = Inr acc"
| "fold_err f acc (x # xs) = (case f acc x of Inl e \<Rightarrow> Inl e | Inr acc' \<Rightarrow> fold_err f acc' xs)"

text \<open>\<open>data.reduce(f)\<close> with no initial value: the first element starts the fold.\<close>

fun reduce :: "(val \<Rightarrow> val \<Rightarrow> error + val) \<Rightarrow> val list \<Rightarrow> error + val" where
  "reduce f [] = Inl TypeError"
| "reduce f (x # xs) = fold_err f x xs"

definition prod_fn :: "evaluator" where
  "prod_fn data h =
     (case as_array h data of
        Inl e \<Rightarrow> (Inl e, h)
      | Inr xs \<Rightarrow> (reduce js_mul xs, h))"

definition sum_fn :: "evaluator" where
  "sum_fn data h =
     (case as_array h data of
        Inl e \<Rightarrow> (Inl e, h)
      | Inr xs \<Rightarrow> (reduce js_add xs, h))"

definition average_fn :: "evaluator" where
  "average_fn data h =
     (case sum_fn data h of
        (Inl e, h1) \<Rightarrow> (Inl e, h1)
      | (Inr s, h1) \<Rightarrow>
          (case to_number s of
             Inl e \<Rightarrow> (Inl e, h1)
           | Inr x \<Rightarrow>
               (case as_array h1 data of
                  Inl e \<Rightarrow> (Inl e, h1)
                | Inr xs \<Rightarrow>
                    (case num_div_length x (length xs) of
                       None \<Rightarrow> (Inl OutOfModel, h1)
                     | Some z \<Rightarrow> (Inr (VNum z), h1)))))"

definition num_min :: "jsnum \<Rightarrow> jsnum \<Rightarrow> jsnum" where
  "num_min lowest x =
     (if lowest = NaN \<or> x = NaN then NaN else if num_less x lowest = Some True then x else lowest)"

definition num_max :: "jsnum \<Rightarrow> jsnum \<Rightarrow> jsnum" where
  "num_max highest x =
     (if highest = NaN \<or> x = NaN then NaN else if num_less highest x = Some True then x else highest)"

fun to_numbers :: "val list \<Rightarrow> error + jsnum list" where
  "to_numbers [] = Inr []"
| "to_numbers (v # vs) =
     (case to_number v of
        Inl e \<Rightarrow> Inl e
      | Inr x \<Rightarrow> (case to_numbers vs of Inl e \<Rightarrow> Inl e | Inr xs \<Rightarrow> Inr (x # xs)))"

definition min_fn :: "evaluator" where
  "min_fn data h =
     (case iterate h data of
        Inl e \<Rightarrow> (Inl e, h)
      | Inr vs \<Rightarrow>
          (case to_numbers vs of
             Inl e \<Rightarrow> (Inl e, h)
           | Inr xs \<Rightarrow> (Inr (VNum (foldl num_min PInf xs)), h)))"

definition max_fn :: "evaluator" where
  "max_fn data h =
     (case iterate h data of
        Inl e \<Rightarrow> (Inl e, h)
      | Inr vs \<Rightarrow>
          (case to_numbers vs of
             Inl e \<Rightarrow> (Inl e, h)
           | Inr xs \<Rightarrow> (Inr (VNum (foldl num_max NInf xs)), h)))"

subsection \<open>if, in, not in, regex\<close>

definition if_fn :: "evaluator \<Rightarrow> evaluator \<Rightarrow> evaluator \<Rightarrow> evaluator" where
  "if_fn condition valueIfTrue valueIfFalse data h =
     (case condition data h of
        (Inl e, h1) \<Rightarrow> (Inl e, h1)
      | (Inr c, h1) \<Rightarrow> (if truthy c then valueIfTrue data h1 else valueIfFalse data h1))"

text \<open>
  \<open>xs.includes(x)\<close>: \<open>SameValueZero\<close> against the elements of an array, a substring test
  on a string; nothing else has the method.
\<close>

fun js_includes :: "heap \<Rightarrow> val \<Rightarrow> val \<Rightarrow> error + bool" where
  "js_includes h (VStr s) x =
     (case to_string h x of Inl e \<Rightarrow> Inl e | Inr t \<Rightarrow> Inr (sublist t s))"
| "js_includes h (VRef a) x =
     (case cell_at h a of
        Some (CArr xs) \<Rightarrow> Inr (list_ex (\<lambda>y. same_value_zero y x) xs)
      | Some (CObj kvs) \<Rightarrow> Inl TypeError
      | None \<Rightarrow> Inl OutOfModel)"
| "js_includes h v x = Inl TypeError"

text \<open>
  The values are computed first and, unless they are \<open>null\<close> or \<open>undefined\<close>, the getter
  runs before \<open>includes\<close> is called.
\<close>

definition in_fn :: "evaluator \<Rightarrow> evaluator \<Rightarrow> evaluator" where
  "in_fn getter values data h =
     (case values data h of
        (Inl e, h1) \<Rightarrow> (Inl e, h1)
      | (Inr vs, h1) \<Rightarrow>
          (if vs = VUndef \<or> vs = VNull then (Inl TypeError, h1)
           else (case getter data h1 of
                   (Inl e, h2) \<Rightarrow> (Inl e, h2)
                 | (Inr x, h2) \<Rightarrow> (map_sum id VBool (js_includes h2 vs x), h2))))"

definition not_in_fn :: "evaluator \<Rightarrow> evaluator \<Rightarrow> evaluator" where
  "not_in_fn getter values data h =
     (case in_fn getter values data h of
        (Inr (VBool b), h1) \<Rightarrow> (Inr (VBool (\<not> b)), h1)
      | r \<Rightarrow> r)"

text \<open>\<open>regex.test(v)\<close> converts \<open>v\<close> to a string and tests that.\<close>

definition regex_fn :: "(string \<Rightarrow> bool) \<Rightarrow> evaluator \<Rightarrow> evaluator" where
  "regex_fn regex getter data h =
     (case getter data h of
        (Inl e, h1) \<Rightarrow> (Inl e, h1)
      | (Inr v, h1) \<Rightarrow> (map_sum id (\<lambda>s. VBool (regex s)) (to_string h1 v), h1))"

subsection \<open>keys, values, mapObject, mapKeys, mapValues, uniqBy\<close>

text \<open>
  The keys of an object in the order of \<open>Object.keys\<close>: the array indices first, in
  ascending order, then the other keys in the order of their creation, which is the
  order of the association list.
\<close>

definition array_index :: "string \<Rightarrow> int option" where
  "array_index k =
     (case read_base 10 k of
        None \<Rightarrow> None
      | Some n \<Rightarrow> (if show_digits n = k \<and> n < 2 ^ 32 - 1 then Some n else None))"

definition own_keys :: "(string \<times> val) list \<Rightarrow> string list" where
  "own_keys kvs =
     sort_key (\<lambda>k. case array_index k of Some n \<Rightarrow> n | None \<Rightarrow> 0)
       (filter (\<lambda>k. array_index k \<noteq> None) (map fst kvs))
     @ filter (\<lambda>k. array_index k = None) (map fst kvs)"

text \<open>
  \<open>Object.keys(data)\<close> with the value under each key: the indices of a string or an
  array, the keys of an object, nothing for a number or a boolean.
\<close>

fun entries :: "heap \<Rightarrow> val \<Rightarrow> error + (string \<times> val) list" where
  "entries h VUndef = Inl TypeError"
| "entries h VNull = Inl TypeError"
| "entries h (VBool b) = Inr []"
| "entries h (VNum n) = Inr []"
| "entries h (VStr s) = Inr (map (\<lambda>i. (show_nat i, VStr [s ! i])) [0..<length s])"
| "entries h (VRef a) =
     (case cell_at h a of
        None \<Rightarrow> Inl OutOfModel
      | Some (CArr xs) \<Rightarrow> Inr (map (\<lambda>i. (show_nat i, xs ! i)) [0..<length xs])
      | Some (CObj kvs) \<Rightarrow>
          Inr (map (\<lambda>k. (k, case map_of kvs k of Some v \<Rightarrow> v | None \<Rightarrow> VUndef)) (own_keys kvs)))"

definition keys_fn :: "evaluator" where
  "keys_fn data h =
     (case entries h data of
        Inl e \<Rightarrow> (Inl e, h)
      | Inr kvs \<Rightarrow> alloc (CArr (map (\<lambda>kv. VStr (fst kv)) kvs)) h)"

definition values_fn :: "evaluator" where
  "values_fn data h =
     (case entries h data of
        Inl e \<Rightarrow> (Inl e, h)
      | Inr kvs \<Rightarrow> alloc (CArr (map snd kvs)) h)"

text \<open>
  \<open>updated.key\<close> as a property key and \<open>updated.value\<close>, of what the callback of
  \<open>mapObject\<close> returned.
\<close>

definition entry_of :: "host \<Rightarrow> heap \<Rightarrow> val \<Rightarrow> error + (string \<times> val)" where
  "entry_of H h updated =
     (if updated = VUndef \<or> updated = VNull then Inl TypeError
      else
        (case opt_member H h updated ''key'' of
           Inl e \<Rightarrow> Inl e
         | Inr k \<Rightarrow>
             (case to_string h k of
                Inl e \<Rightarrow> Inl e
              | Inr updatedKey \<Rightarrow>
                  (case opt_member H h updated ''value'' of
                     Inl e \<Rightarrow> Inl e
                   | Inr w \<Rightarrow> Inr (updatedKey, w)))))"

text \<open>
  The loop of \<open>mapObject\<close>: the callback gets a fresh object \<open>{ key, value }\<close> and its
  result is read under \<open>key\<close> and \<open>value\<close>.
\<close>

fun mapObject_loop ::
  "host \<Rightarrow> evaluator \<Rightarrow> (string \<times> val) list \<Rightarrow> (string \<times> val) list \<Rightarrow> heap \<Rightarrow> (string \<times> val) list res" where
  "mapObject_loop H callback [] output h = (Inr output, h)"
| "mapObject_loop H callback ((key, v) # kvs) output h =
     (case callback (VRef (length h)) (h @ [CObj [(''key'', VStr key), (''value'', v)]]) of
        (Inl e, h1) \<Rightarrow> (Inl e, h1)
      | (Inr updated, h1) \<Rightarrow>
          (case entry_of H h1 updated of
             Inl e \<Rightarrow> (Inl e, h1)
           | Inr entry \<Rightarrow>
               (case obj_set output (fst entry) (snd entry) of
                  Inl e \<Rightarrow> (Inl e, h1)
                | Inr output' \<Rightarrow> mapObject_loop H callback kvs output' h1)))"

definition mapObject_fn :: "host \<Rightarrow> evaluator \<Rightarrow> evaluator" where
  "mapObject_fn H callback data h =
     (case entries h data of
        Inl e \<Rightarrow> (Inl e, h)
      | Inr kvs \<Rightarrow>
          (case mapObject_loop H callback kvs [] h of
             (Inl e, h1) \<Rightarrow> (Inl e, h1)
           | (Inr output, h1) \<Rightarrow> alloc (CObj output) h1))"

fun mapKeys_loop ::
  "evaluator \<Rightarrow> (string \<times> val) list \<Rightarrow> (string \<times> val) list \<Rightarrow> heap \<Rightarrow> (string \<times> val) list res" where
  "mapKeys_loop callback [] output h = (Inr output, h)"
| "mapKeys_loop callback ((key, v) # kvs) output h =
     (case callback (VStr key) h of
        (Inl e, h1) \<Rightarrow> (Inl e, h1)
      | (Inr k, h1) \<Rightarrow>
          (case to_string h1 k of
             Inl e \<Rightarrow> (Inl e, h1)
           | Inr updatedKey \<Rightarrow>
               (case obj_set output updatedKey v of
                  Inl e \<Rightarrow> (Inl e, h1)
                | Inr output' \<Rightarrow> mapKeys_loop callback kvs output' h1)))"

definition mapKeys_fn :: "evaluator \<Rightarrow> evaluator" where
  "mapKeys_fn callback data h =
     (case entries h data of
        Inl e \<Rightarrow> (Inl e, h)
      | Inr kvs \<Rightarrow>
          (case mapKeys_loop callback kvs [] h of
             (Inl e, h1) \<Rightarrow> (Inl e, h1)
           | (Inr output, h1) \<Rightarrow> alloc (CObj output) h1))"

fun mapValues_loop ::
  "evaluator \<Rightarrow> (string \<times> val) list \<Rightarrow> (string \<times> val) list \<Rightarrow> heap \<Rightarrow> (string \<times> val) list res" where
  "mapValues_loop callback [] output h = (Inr output, h)"
| "mapValues_loop callback ((key, v) # kvs) output h =
     (case callback v h of
        (Inl e, h1) \<Rightarrow> (Inl e, h1)
      | (Inr w, h1) \<Rightarrow>
          (case obj_set output key w of
             Inl e \<Rightarrow> (Inl e, h1)
           | Inr output' \<Rightarrow> mapValues_loop callback kvs output' h1))"

definition mapValues_fn :: "evaluator \<Rightarrow> evaluator" where
  "mapValues_fn callback data h =
     (case entries h data of
        Inl e \<Rightarrow> (Inl e, h)
      | Inr kvs \<Rightarrow>
          (case mapValues_loop callback kvs [] h of
             (Inl e, h1) \<Rightarrow> (Inl e, h1)
           | (Inr output, h1) \<Rightarrow> alloc (CObj output) h1))"

text \<open>
  \<open>Object.values(functions.keyBy(path)(data))\<close>: \<open>keyBy\<close> is built when the evaluator
  runs, so a path that does not compile fails then.
\<close>

definition uniqBy_fn :: "host \<Rightarrow> error + evaluator \<Rightarrow> evaluator" where
  "uniqBy_fn H getter data h =
     (case getter of
        Inl e \<Rightarrow> (Inl e, h)
      | Inr g \<Rightarrow>
          (case keyBy_fn H g data h of
             (Inl e, h1) \<Rightarrow> (Inl e, h1)
           | (Inr res, h1) \<Rightarrow> values_fn res h1))"

subsection \<open>flatten, join, split, substring, limit, size\<close>

text \<open>\<open>data.flat()\<close>: an element that is an array gives its elements, one level deep.\<close>

definition flat_one :: "heap \<Rightarrow> val \<Rightarrow> val list" where
  "flat_one h x =
     (case x of
        VRef a \<Rightarrow> (case cell_at h a of Some (CArr ys) \<Rightarrow> ys | _ \<Rightarrow> [x])
      | _ \<Rightarrow> [x])"

definition flatten_fn :: "evaluator" where
  "flatten_fn data h =
     (case as_array h data of
        Inl e \<Rightarrow> (Inl e, h)
      | Inr xs \<Rightarrow> alloc (CArr (concat (map (flat_one h) xs))) h)"

definition join_fn :: "string \<Rightarrow> evaluator" where
  "join_fn separator data h =
     (case as_array h data of
        Inl e \<Rightarrow> (Inl e, h)
      | Inr xs \<Rightarrow> (map_sum id VStr (join_fuel (length h) h separator xs), h))"

text \<open>
  \<open>s.split(sep)\<close> for a string \<open>sep\<close>: the characters of \<open>s\<close> when \<open>sep\<close> is empty, and
  otherwise the pieces between the occurrences of \<open>sep\<close>, found from the left.
\<close>

function split_on :: "string \<Rightarrow> string \<Rightarrow> string \<Rightarrow> string list" where
  "split_on sep piece [] = [piece]"
| "split_on sep piece (c # cs) =
     (if sep \<noteq> [] \<and> prefix sep (c # cs)
      then piece # split_on sep [] (drop (length sep) (c # cs))
      else split_on sep (piece @ [c]) cs)"
  by pat_completeness auto
termination
  by (relation "measure (\<lambda>(sep, piece, s). length s)") auto

definition string_split :: "string \<Rightarrow> string \<Rightarrow> string list" where
  "string_split s sep = (if sep = [] then map (\<lambda>c. [c]) s else split_on sep [] s)"

text \<open>\<open>s.split(/\s+/)\<close> for a trimmed string: its words, and the empty string for none.\<close>

function words_of :: "string \<Rightarrow> string \<Rightarrow> string list" where
  "words_of piece [] = [piece]"
| "words_of piece (c # cs) =
     (if is_space c then piece # words_of [] (dropWhile is_space cs)
      else words_of (piece @ [c]) cs)"
  by pat_completeness auto
termination
  by (relation "measure (\<lambda>(piece, s). length s)") (auto simp: length_dropWhile_le less_Suc_eq_le)

definition split_fn :: "val list \<Rightarrow> heap \<Rightarrow> val res" where
  "split_fn vs h =
     (case arg vs 0 of
        VStr text \<Rightarrow>
          (if arg vs 1 \<noteq> VUndef then
             (case to_string h (arg vs 1) of
                Inl e \<Rightarrow> (Inl e, h)
              | Inr separator \<Rightarrow> alloc (CArr (map VStr (string_split text separator))) h)
           else alloc (CArr (map VStr (words_of [] (trim text)))) h)
      | _ \<Rightarrow> (Inl TypeError, h))"

text \<open>
  An argument of \<open>slice\<close> as a position in a sequence of \<open>len\<close> elements: the integer part
  of the number, counted from the end when negative, and kept within the sequence.
\<close>

definition slice_index :: "jsnum \<Rightarrow> nat \<Rightarrow> nat" where
  "slice_index x len =
     (case x of
        NaN \<Rightarrow> 0
      | PInf \<Rightarrow> len
      | NInf \<Rightarrow> 0
      | Fin q \<Rightarrow>
          (let i = (if 0 \<le> q then \<lfloor>q\<rfloor> else \<lceil>q\<rceil>)
           in if i < 0 then nat (int len + i) else min (nat i) len))"

definition slice :: "'a list \<Rightarrow> jsnum \<Rightarrow> jsnum option \<Rightarrow> 'a list" where
  "slice xs start end =
     (let from = slice_index start (length xs);
          to = (case end of None \<Rightarrow> length xs | Some e \<Rightarrow> slice_index e (length xs))
      in take (to - from) (drop from xs))"

text \<open>The end that \<open>slice\<close> is given: none when it is \<open>undefined\<close>.\<close>

definition slice_end :: "val \<Rightarrow> error + jsnum option" where
  "slice_end v = (if v = VUndef then Inr None else map_sum id Some (to_number v))"

text \<open>\<open>Math.max(x, 0)\<close>\<close>

definition max_zero :: "jsnum \<Rightarrow> jsnum" where
  "max_zero x = (if x = NaN then NaN else if num_less x (Fin 0) = Some True then Fin 0 else x)"

text \<open>
  \<open>text.slice(Math.max(start, 0), end)\<close>: strings and arrays have \<open>slice\<close>, nothing else
  has.
\<close>

definition substring_fn :: "val list \<Rightarrow> heap \<Rightarrow> val res" where
  "substring_fn vs h =
     (if arg vs 0 = VUndef \<or> arg vs 0 = VNull then (Inl TypeError, h)
      else
        (case to_number (arg vs 1) of
           Inl e \<Rightarrow> (Inl e, h)
         | Inr start \<Rightarrow>
             (case arg vs 0 of
                VStr text \<Rightarrow>
                  (case slice_end (arg vs 2) of
                     Inl e \<Rightarrow> (Inl e, h)
                   | Inr end \<Rightarrow> (Inr (VStr (slice text (max_zero start) end)), h))
              | VRef a \<Rightarrow>
                  (case cell_at h a of
                     Some (CArr xs) \<Rightarrow>
                       (case slice_end (arg vs 2) of
                          Inl e \<Rightarrow> (Inl e, h)
                        | Inr end \<Rightarrow> alloc (CArr (slice xs (max_zero start) end)) h)
                   | Some (CObj kvs) \<Rightarrow> (Inl TypeError, h)
                   | None \<Rightarrow> (Inl OutOfModel, h))
              | _ \<Rightarrow> (Inl TypeError, h))))"

text \<open>\<open>data.slice(0, Math.max(count, 0))\<close>\<close>

definition limit_fn :: "val \<Rightarrow> evaluator" where
  "limit_fn count data h =
     (if data = VUndef \<or> data = VNull then (Inl TypeError, h)
      else
        (case to_number count of
           Inl e \<Rightarrow> (Inl e, h)
         | Inr n \<Rightarrow>
             (case data of
                VStr text \<Rightarrow> (Inr (VStr (slice text (Fin 0) (Some (max_zero n)))), h)
              | VRef a \<Rightarrow>
                  (case cell_at h a of
                     Some (CArr xs) \<Rightarrow> alloc (CArr (slice xs (Fin 0) (Some (max_zero n)))) h
                   | Some (CObj kvs) \<Rightarrow> (Inl TypeError, h)
                   | None \<Rightarrow> (Inl OutOfModel, h))
              | _ \<Rightarrow> (Inl TypeError, h))))"

text \<open>\<open>data.length\<close>: the property of whatever the data is, \<open>undefined\<close> when it has none.\<close>

definition size_fn :: "host \<Rightarrow> evaluator" where
  "size_fn H data h =
     (if data = VUndef \<or> data = VNull then (Inl TypeError, h)
      else (opt_member H h data ''length'', h))"

subsection \<open>exists\<close>

text \<open>\<open>Object.hasOwnProperty.call(parent, key)\<close> for a parent that is truthy.\<close>

fun has_own :: "heap \<Rightarrow> val \<Rightarrow> string \<Rightarrow> error + bool" where
  "has_own h (VStr s) key = Inr (key = ''length'' \<or> index_of key (length s) \<noteq> None)"
| "has_own h (VRef a) key =
     (case cell_at h a of
        Some (CArr xs) \<Rightarrow> Inr (key = ''length'' \<or> index_of key (length xs) \<noteq> None)
      | Some (CObj kvs) \<Rightarrow> Inr (map_of kvs key \<noteq> None)
      | None \<Rightarrow> Inl OutOfModel)"
| "has_own h v key = Inr False"

definition exists_fn :: "host \<Rightarrow> string list \<Rightarrow> evaluator" where
  "exists_fn H path data h =
     (case get_fn H (butlast path) data h of
        (Inl e, h1) \<Rightarrow> (Inl e, h1)
      | (Inr parent, h1) \<Rightarrow>
          (if to_boolean parent
           then (map_sum id VBool (has_own h1 parent (if path = [] then ''undefined'' else last path)), h1)
           else (Inr (VBool False), h1)))"

subsection \<open>Arithmetic and conversion\<close>

text \<open>
  \<open>x / y\<close>. The model has one zero, so a quotient whose sign is the sign of a zero
  divisor has no value in it; of two finite numbers it has the quotients that need no
  rounding.
\<close>

fun num_div :: "jsnum \<Rightarrow> jsnum \<Rightarrow> jsnum option" where
  "num_div NaN y = Some NaN"
| "num_div x NaN = Some NaN"
| "num_div (Fin a) (Fin b) =
     (if b = 0 then (if a = 0 then Some NaN else None) else exactly a b (a / b))"
| "num_div (Fin a) y = Some (Fin 0)"
| "num_div x (Fin b) = (if b = 0 then None else Some (inf_times x b))"
| "num_div x y = Some NaN"

text \<open>\<open>x % y\<close>: the remainder has the sign of \<open>x\<close>, and is computed without rounding.\<close>

fun num_mod :: "jsnum \<Rightarrow> jsnum \<Rightarrow> jsnum option" where
  "num_mod (Fin a) (Fin b) =
     (if b = 0 then Some NaN
      else exactly a b (a - b * of_int (if 0 \<le> a / b then \<lfloor>a / b\<rfloor> else \<lceil>a / b\<rceil>)))"
| "num_mod (Fin a) PInf = Some (Fin a)"
| "num_mod (Fin a) NInf = Some (Fin a)"
| "num_mod x y = Some NaN"

text \<open>
  \<open>x ** y\<close> is approximated as the implementation sees fit. The model has the powers
  that come out the same everywhere: the exponents zero and \<open>NaN\<close>, and an integer to a
  positive integer power when the result needs no rounding.
\<close>

definition num_pow :: "jsnum \<Rightarrow> jsnum \<Rightarrow> jsnum option" where
  "num_pow x y =
     (case y of
        NaN \<Rightarrow> Some NaN
      | Fin e \<Rightarrow>
          (if e = 0 then Some (Fin 1)
           else (case x of
                   NaN \<Rightarrow> Some NaN
                 | Fin b \<Rightarrow>
                     (if is_int e \<and> 0 < e \<and> is_int b then exactly b e (b ^ nat \<lfloor>e\<rfloor>) else None)
                 | _ \<Rightarrow> None))
      | _ \<Rightarrow> (if x = NaN then Some NaN else None))"

definition arith :: "(jsnum \<Rightarrow> jsnum \<Rightarrow> jsnum option) \<Rightarrow> val list \<Rightarrow> error + val" where
  "arith f vs =
     (case to_number (arg vs 0) of
        Inl e \<Rightarrow> Inl e
      | Inr x \<Rightarrow>
          (case to_number (arg vs 1) of
             Inl e \<Rightarrow> Inl e
           | Inr y \<Rightarrow> (case f x y of None \<Rightarrow> Inl OutOfModel | Some z \<Rightarrow> Inr (VNum z))))"

definition add_fn :: "val list \<Rightarrow> error + val" where
  "add_fn vs = js_add (arg vs 0) (arg vs 1)"

definition subtract_fn :: "val list \<Rightarrow> error + val" where
  "subtract_fn vs = arith (\<lambda>x y. num_add x (num_neg y)) vs"

definition multiply_fn :: "val list \<Rightarrow> error + val" where
  "multiply_fn vs = js_mul (arg vs 0) (arg vs 1)"

definition divide_fn :: "val list \<Rightarrow> error + val" where
  "divide_fn vs = arith num_div vs"

definition pow_fn :: "val list \<Rightarrow> error + val" where
  "pow_fn vs = arith num_pow vs"

definition mod_fn :: "val list \<Rightarrow> error + val" where
  "mod_fn vs = arith num_mod vs"

definition abs_fn :: "val list \<Rightarrow> error + val" where
  "abs_fn vs =
     map_sum id (\<lambda>x. VNum (case x of Fin a \<Rightarrow> Fin \<bar>a\<bar> | NInf \<Rightarrow> PInf | _ \<Rightarrow> x)) (to_number (arg vs 0))"

definition number_fn :: "val list \<Rightarrow> error + val" where
  "number_fn vs = map_sum id (\<lambda>num. if num = NaN then VNull else VNum num) (to_number (arg vs 0))"

text \<open>\<open>String(v)\<close>, and the empty string when called with nothing.\<close>

definition string_fn :: "val list \<Rightarrow> heap \<Rightarrow> val res" where
  "string_fn vs h = (if vs = [] then Inr (VStr []) else map_sum id VStr (to_string h (vs ! 0)), h)"

subsection \<open>round\<close>

text \<open>
  \<open>Math.round\<close>: the nearest integer, and of two nearest the one towards \<open>+\<infinity>\<close>.
\<close>

fun math_round :: "jsnum \<Rightarrow> jsnum" where
  "math_round (Fin q) = Fin (of_int \<lfloor>q + 1 / 2\<rfloor>)"
| "math_round x = x"

text \<open>
  A number prints in positional notation when it is zero or between \<open>10^-6\<close> and \<open>10^21\<close>,
  and with an exponent otherwise.
\<close>

definition positional :: "rat \<Rightarrow> bool" where
  "positional q = (q = 0 \<or> (1 / 10 ^ 6 \<le> \<bar>q\<bar> \<and> \<bar>q\<bar> < 10 ^ 21))"

text \<open>
  \<open>Number(`${x}e${d}`)\<close> for two numbers of the model: the exponent moves the decimal
  point of a number in positional notation, and the result is read as \<open>Number\<close> reads a
  string. A second exponent, \<open>NaN\<close> or \<open>Infinity\<close> before the \<open>e\<close>, and an exponent that
  is no integer in positional notation, make a string that is no number.
\<close>

definition with_exponent :: "jsnum \<Rightarrow> jsnum \<Rightarrow> error + jsnum" where
  "with_exponent x d =
     (case (x, d) of
        (Fin q, Fin e) \<Rightarrow>
          (if positional q \<and> is_int e \<and> \<bar>e\<bar> < 10 ^ 21 then known (Fin (shift10 q \<lfloor>e\<rfloor>))
           else Inr NaN)
      | _ \<Rightarrow> Inr NaN)"

definition round_num :: "jsnum \<Rightarrow> jsnum \<Rightarrow> error + jsnum" where
  "round_num v digits =
     (case with_exponent v digits of
        Inl e \<Rightarrow> Inl e
      | Inr num \<Rightarrow> with_exponent (math_round num) (num_neg digits))"

text \<open>
  The typed arguments only: a number, and digits that are a number or absent. Both are
  printed, so both are numbers of the model.
\<close>

definition round_fn :: "val list \<Rightarrow> error + val" where
  "round_fn vs =
     (case (arg vs 0, arg vs 1) of
        (VNum v, VUndef) \<Rightarrow>
          (case known v of Inl e \<Rightarrow> Inl e | Inr x \<Rightarrow> map_sum id VNum (round_num x (Fin 0)))
      | (VNum v, VNum digits) \<Rightarrow>
          (case known v of
             Inl e \<Rightarrow> Inl e
           | Inr x \<Rightarrow>
               (case known digits of Inl e \<Rightarrow> Inl e | Inr d \<Rightarrow> map_sum id VNum (round_num x d)))
      | _ \<Rightarrow> Inl OutOfModel)"

section \<open>compile\<close>

text \<open>
  Modelled from the spec: \<open>compile.ts\<close>, which \<open>functions.ts\<close> and \<open>jsonquery.ts\<close> import,
  is not among the sources. The spec (3, 4.2) gives the abstract form of a query and the
  dispatch: a literal compiles to the constant evaluator, a function node looks its
  name up in the function table and calls the builder with the arguments, an unknown
  name fails with \<open>UnknownFunction\<close>, and an object node goes to the builder \<open>object\<close>.
  A literal is a primitive here: in the JSON notation an array is a function call.
\<close>

datatype lit = LNull | LBool bool | LNum jsnum | LStr string

datatype query = Literal lit | Function string "query list" | ObjectQ "(string \<times> query) list"

text \<open>
  \<open>Unmodelled\<close> is to building what \<open>OutOfModel\<close> is to running: arguments of a shape the
  model leaves out, and a pattern the host's \<open>regexp\<close> does not take.
\<close>

datatype cerror = UnknownFunction string | Unmodelled

fun lit_val :: "lit \<Rightarrow> val" where
  "lit_val LNull = VNull"
| "lit_val (LBool b) = VBool b"
| "lit_val (LNum n) = VNum n"
| "lit_val (LStr s) = VStr s"

text \<open>A key of a path: a string, or a number through its string.\<close>

fun key_of :: "query \<Rightarrow> string option" where
  "key_of (Literal (LStr s)) = Some s"
| "key_of (Literal (LNum n)) = (case num_to_string n of Inr s \<Rightarrow> Some s | Inl e \<Rightarrow> None)"
| "key_of q = None"

fun keys_of :: "query list \<Rightarrow> string list option" where
  "keys_of [] = Some []"
| "keys_of (q # qs) =
     (case key_of q of
        None \<Rightarrow> None
      | Some k \<Rightarrow> (case keys_of qs of None \<Rightarrow> None | Some ks \<Rightarrow> Some (k # ks)))"

fun sequence :: "(cerror + 'a) list \<Rightarrow> cerror + 'a list" where
  "sequence [] = Inr []"
| "sequence (c # cs) =
     (case c of
        Inl e \<Rightarrow> Inl e
      | Inr x \<Rightarrow> (case sequence cs of Inl e \<Rightarrow> Inl e | Inr xs \<Rightarrow> Inr (x # xs)))"

text \<open>
  A builder gets its arguments as written and as compiled, and uses of each what the
  source does: \<open>get\<close> reads its keys, \<open>map\<close> compiles its callback, \<open>sort\<close> compiles its
  path and reads its direction. An argument that the source does not declare is ignored.
\<close>

type_synonym builder = "host \<Rightarrow> query list \<Rightarrow> (cerror + evaluator) list \<Rightarrow> cerror + evaluator"

definition build_all :: "(evaluator list \<Rightarrow> evaluator) \<Rightarrow> builder" where
  "build_all f H args cargs = map_sum id f (sequence cargs)"

definition build_none :: "evaluator \<Rightarrow> builder" where
  "build_none ev H args cargs = Inr ev"

definition build_one :: "(evaluator \<Rightarrow> evaluator) \<Rightarrow> builder" where
  "build_one f H args cargs = (case cargs of [] \<Rightarrow> Inl Unmodelled | c # cs \<Rightarrow> map_sum id f c)"

definition build_get :: "builder" where
  "build_get H args cargs =
     (case keys_of args of None \<Rightarrow> Inl Unmodelled | Some path \<Rightarrow> Inr (get_fn H path))"

text \<open>The node \<open>ObjectQ\<close> compiles to the evaluator of \<open>object\<close>, so the builder hands it on.\<close>

definition build_object :: "builder" where
  "build_object H args cargs =
     (case (args, cargs) of
        (ObjectQ kqs # qs, c # cs) \<Rightarrow> c
      | _ \<Rightarrow> Inl Unmodelled)"

text \<open>\<open>sort(path = ['get'], direction?)\<close>\<close>

definition build_sort :: "builder" where
  "build_sort H args cargs =
     map_sum id (\<lambda>getter. sort_fn getter (1 < length args \<and> args ! 1 = Literal (LStr ''desc'')))
       (case cargs of [] \<Rightarrow> Inr (get_fn H []) | c # cs \<Rightarrow> c)"

fun pick_path :: "query \<Rightarrow> string list option" where
  "pick_path (Function name path) = keys_of path"
| "pick_path q = None"

fun pick_paths :: "query list \<Rightarrow> string list list option" where
  "pick_paths [] = Some []"
| "pick_paths (q # qs) =
     (case pick_path q of
        None \<Rightarrow> None
      | Some p \<Rightarrow> (case pick_paths qs of None \<Rightarrow> None | Some ps \<Rightarrow> Some (p # ps)))"

definition build_pick :: "builder" where
  "build_pick H args cargs =
     (case pick_paths args of None \<Rightarrow> Inl Unmodelled | Some ps \<Rightarrow> Inr (pick_fn H ps))"

definition build_if :: "builder" where
  "build_if H args cargs =
     (case cargs of
        c # t # f # cs \<Rightarrow>
          (case sequence [c, t, f] of
             Inl e \<Rightarrow> Inl e
           | Inr evs \<Rightarrow> Inr (if_fn (evs ! 0) (evs ! 1) (evs ! 2)))
      | _ \<Rightarrow> Inl Unmodelled)"

definition build_two :: "(evaluator \<Rightarrow> evaluator \<Rightarrow> evaluator) \<Rightarrow> builder" where
  "build_two f H args cargs =
     (case cargs of
        p # v # cs \<Rightarrow>
          (case sequence [p, v] of
             Inl e \<Rightarrow> Inl e
           | Inr evs \<Rightarrow> Inr (f (evs ! 0) (evs ! 1)))
      | _ \<Rightarrow> Inl Unmodelled)"

text \<open>\<open>regex(path, expression, options?)\<close>: the expression is compiled here, once.\<close>

definition build_regex :: "builder" where
  "build_regex H args cargs =
     (case (args, cargs) of
        ([p, Literal (LStr expression)], c # cs) \<Rightarrow>
          (case regexp H expression None of
             None \<Rightarrow> Inl Unmodelled
           | Some regex \<Rightarrow> map_sum id (regex_fn regex) c)
      | (p # Literal (LStr expression) # Literal (LStr options) # qs, c # cs) \<Rightarrow>
          (case regexp H expression (Some options) of
             None \<Rightarrow> Inl Unmodelled
           | Some regex \<Rightarrow> map_sum id (regex_fn regex) c)
      | _ \<Rightarrow> Inl Unmodelled)"

text \<open>\<open>join(separator = '')\<close>: the separator is the argument as written.\<close>

definition build_join :: "builder" where
  "build_join H args cargs =
     (case args of
        [] \<Rightarrow> Inr (join_fn [])
      | Literal l # qs \<Rightarrow>
          (case prim_to_string (lit_val l) of
             Inl e \<Rightarrow> Inl Unmodelled
           | Inr separator \<Rightarrow> Inr (join_fn separator))
      | _ \<Rightarrow> Inl Unmodelled)"

text \<open>\<open>limit(count)\<close>: the count is the argument as written, \<open>undefined\<close> when there is none.\<close>

definition build_limit :: "builder" where
  "build_limit H args cargs =
     (case args of
        [] \<Rightarrow> Inr (limit_fn VUndef)
      | Literal l # qs \<Rightarrow> Inr (limit_fn (lit_val l))
      | _ \<Rightarrow> Inl Unmodelled)"

text \<open>\<open>exists(queryGet)\<close>: the argument is a \<open>get\<close> as written, of which the path is read.\<close>

definition build_exists :: "builder" where
  "build_exists H args cargs =
     (case args of
        Function name path # qs \<Rightarrow>
          (case keys_of path of None \<Rightarrow> Inl Unmodelled | Some ks \<Rightarrow> Inr (exists_fn H ks))
      | _ \<Rightarrow> Inl Unmodelled)"

text \<open>
  \<open>uniqBy(path)\<close> compiles nothing when it is built: what compiling the path gives,
  an evaluator or an exception, is kept for the run.
\<close>

fun thrown :: "cerror \<Rightarrow> error" where
  "thrown (UnknownFunction name) = UnknownFunctionError name"
| "thrown Unmodelled = OutOfModel"

definition build_uniqBy :: "builder" where
  "build_uniqBy H args cargs =
     Inr (uniqBy_fn H (map_sum thrown id (case cargs of [] \<Rightarrow> Inl Unmodelled | c # cs \<Rightarrow> c)))"

text \<open>The table \<open>functions\<close> of \<open>functions.ts\<close>.\<close>

definition functions_map :: "(string \<times> builder) list" where
  "functions_map =
     [(''pipe'', build_all pipe_fn),
      (''object'', build_object),
      (''array'', build_all array_fn),
      (''get'', build_get),
      (''map'', build_one map_fn),
      (''mapObject'', \<lambda>H. build_one (mapObject_fn H) H),
      (''mapKeys'', build_one mapKeys_fn),
      (''mapValues'', build_one mapValues_fn),
      (''filter'', build_one filter_fn),
      (''sort'', build_sort),
      (''reverse'', build_none reverse_fn),
      (''pick'', build_pick),
      (''groupBy'', \<lambda>H. build_one (groupBy_fn H) H),
      (''keyBy'', \<lambda>H. build_one (keyBy_fn H) H),
      (''flatten'', build_none flatten_fn),
      (''join'', build_join),
      (''split'', build_all (buildFunction split_fn)),
      (''substring'', build_all (buildFunction substring_fn)),
      (''uniq'', build_none uniq_fn),
      (''uniqBy'', build_uniqBy),
      (''limit'', build_limit),
      (''size'', \<lambda>H. build_none (size_fn H) H),
      (''keys'', build_none keys_fn),
      (''values'', build_none values_fn),
      (''prod'', build_none prod_fn),
      (''sum'', build_none sum_fn),
      (''average'', build_none average_fn),
      (''min'', build_none min_fn),
      (''max'', build_none max_fn),
      (''and'', build_all (buildFunction (pure_fn and_fn))),
      (''or'', build_all (buildFunction (pure_fn or_fn))),
      (''not'', build_all (buildFunction (pure_fn not_fn))),
      (''exists'', build_exists),
      (''if'', build_if),
      (''in'', build_two in_fn),
      (''not in'', build_two not_in_fn),
      (''regex'', build_regex),
      (''eq'', build_all (buildFunction (pure_fn eq_fn))),
      (''gt'', build_all (buildFunction gt_fn)),
      (''gte'', build_all (buildFunction gte_fn)),
      (''lt'', build_all (buildFunction lt_fn)),
      (''lte'', build_all (buildFunction lte_fn)),
      (''ne'', build_all (buildFunction (pure_fn ne_fn))),
      (''add'', build_all (buildFunction (pure_fn add_fn))),
      (''subtract'', build_all (buildFunction (pure_fn subtract_fn))),
      (''multiply'', build_all (buildFunction (pure_fn multiply_fn))),
      (''divide'', build_all (buildFunction (pure_fn divide_fn))),
      (''pow'', build_all (buildFunction (pure_fn pow_fn))),
      (''mod'', build_all (buildFunction (pure_fn mod_fn))),
      (''abs'', build_all (buildFunction (pure_fn abs_fn))),
      (''round'', build_all (buildFunction (pure_fn round_fn))),
      (''number'', build_all (buildFunction (pure_fn number_fn))),
      (''string'', build_all (buildFunction string_fn))]"

definition literal_fn :: "lit \<Rightarrow> evaluator" where
  "literal_fn l data h = (Inr (lit_val l), h)"

fun compile :: "host \<Rightarrow> query \<Rightarrow> cerror + evaluator" where
  "compile H (Literal l) = Inr (literal_fn l)"
| "compile H (Function name args) =
     (case map_of functions_map name of
        None \<Rightarrow> Inl (UnknownFunction name)
      | Some build \<Rightarrow> build H args (map (compile H) args))"
| "compile H (ObjectQ kqs) =
     map_sum id object_fn (sequence (map (\<lambda>(key, q). map_sum id (Pair key) (compile H q)) kqs))"

text \<open>
  \<open>jsonquery(data, query)\<close> of \<open>jsonquery.ts\<close>, called without options. A query that is a
  string is a text: it goes through \<open>parse\<close> first, which is not among the sources, so
  the model has the queries in the abstract form only.
\<close>

definition jsonquery :: "host \<Rightarrow> val \<Rightarrow> query \<Rightarrow> heap \<Rightarrow> cerror + val res" where
  "jsonquery H data query h =
     (case query of
        Literal (LStr text) \<Rightarrow> Inl Unmodelled
      | _ \<Rightarrow> map_sum id (\<lambda>ev. ev data h) (compile H query))"

section \<open>A host\<close>

text \<open>
  The property names of the built-in prototypes in ECMAScript 2023, the edition of
  \<open>toReversed\<close>, and a \<open>RegExp\<close> for the patterns of letters and digits without flags,
  which test for a substring. The theorems hold for every host; this one runs the
  examples.
\<close>

definition object_prototype :: "string list" where
  "object_prototype =
     [''constructor'', ''hasOwnProperty'', ''isPrototypeOf'', ''propertyIsEnumerable'',
      ''toLocaleString'', ''toString'', ''valueOf'', ''__proto__'', ''__defineGetter__'',
      ''__defineSetter__'', ''__lookupGetter__'', ''__lookupSetter__'']"

definition array_prototype :: "string list" where
  "array_prototype =
     [''at'', ''concat'', ''copyWithin'', ''entries'', ''every'', ''fill'', ''filter'', ''find'',
      ''findIndex'', ''findLast'', ''findLastIndex'', ''flat'', ''flatMap'', ''forEach'',
      ''includes'', ''indexOf'', ''join'', ''keys'', ''lastIndexOf'', ''map'', ''pop'', ''push'',
      ''reduce'', ''reduceRight'', ''reverse'', ''shift'', ''slice'', ''some'', ''sort'',
      ''splice'', ''toReversed'', ''toSorted'', ''toSpliced'', ''unshift'', ''values'', ''with'']"

definition string_prototype :: "string list" where
  "string_prototype =
     [''at'', ''charAt'', ''charCodeAt'', ''codePointAt'', ''concat'', ''endsWith'', ''includes'',
      ''indexOf'', ''lastIndexOf'', ''localeCompare'', ''match'', ''matchAll'', ''normalize'',
      ''padEnd'', ''padStart'', ''repeat'', ''replace'', ''replaceAll'', ''search'', ''slice'',
      ''split'', ''startsWith'', ''substring'', ''toLocaleLowerCase'', ''toLocaleUpperCase'',
      ''toLowerCase'', ''toUpperCase'', ''trim'', ''trimEnd'', ''trimStart'', ''substr'',
      ''anchor'', ''big'', ''blink'', ''bold'', ''fixed'', ''fontcolor'', ''fontsize'',
      ''italics'', ''link'', ''small'', ''strike'', ''sub'', ''sup'', ''trimLeft'', ''trimRight'']"

definition number_prototype :: "string list" where
  "number_prototype = [''toExponential'', ''toFixed'', ''toPrecision'']"

fun es2023_inherited :: "kind \<Rightarrow> string \<Rightarrow> bool" where
  "es2023_inherited KObject name = (name \<in> set object_prototype)"
| "es2023_inherited KArray name = (name \<in> set (array_prototype @ object_prototype))"
| "es2023_inherited KString name = (name \<in> set (string_prototype @ object_prototype))"
| "es2023_inherited KNumber name = (name \<in> set (number_prototype @ object_prototype))"
| "es2023_inherited KBoolean name = (name \<in> set object_prototype)"

definition alphanumeric :: "string \<Rightarrow> bool" where
  "alphanumeric p =
     list_all (\<lambda>c. c \<in> set ''abcdefghijklmnopqrstuvwxyzABCDEFGHIJKLMNOPQRSTUVWXYZ0123456789'') p"

definition literal_regexp :: "string \<Rightarrow> string option \<Rightarrow> (string \<Rightarrow> bool) option" where
  "literal_regexp expression options =
     (if alphanumeric expression \<and> (options = None \<or> options = Some [])
      then Some (sublist expression) else None)"

definition es2023 :: "host" where
  "es2023 = \<lparr>inherited = es2023_inherited, regexp = literal_regexp\<rparr>"

section \<open>Predicates of the properties\<close>

text \<open>
  A function on the store keeps it when every cell the store held before the call is
  still there, unchanged, after it: the old store is a prefix of the new one.
\<close>

definition frame :: "('a \<Rightarrow> heap \<Rightarrow> 'b res) \<Rightarrow> bool" where
  "frame f = (\<forall>x h. prefix h (snd (f x h)))"

definition frame_builder :: "builder \<Rightarrow> bool" where
  "frame_builder b =
     (\<forall>H args cargs ev. (\<forall>c \<in> set cargs. \<forall>e. c = Inr e \<longrightarrow> frame e)
        \<longrightarrow> b H args cargs = Inr ev \<longrightarrow> frame ev)"

text \<open>
  A Value of the specification: \<open>null\<close>, a boolean, a number, a string, or an array or
  object that the store holds; \<open>undefined\<close> is none. A store of Values holds Values only.
\<close>

definition is_value :: "heap \<Rightarrow> val \<Rightarrow> bool" where
  "is_value h v = (case v of VRef a \<Rightarrow> a < length h | VUndef \<Rightarrow> False | _ \<Rightarrow> True)"

definition value_cell :: "heap \<Rightarrow> cell \<Rightarrow> bool" where
  "value_cell h c =
     (case c of
        CArr xs \<Rightarrow> list_all (is_value h) xs
      | CObj kvs \<Rightarrow> list_all (is_value h) (map snd kvs))"

definition value_store :: "heap \<Rightarrow> bool" where
  "value_store h = list_all (value_cell h) h"


text \<open>A key that no prototype of the host holds.\<close>

definition own_only :: "host \<Rightarrow> string \<Rightarrow> bool" where
  "own_only H name =
     list_all (\<lambda>k. \<not> inherited H k name) [KBoolean, KNumber, KString, KArray, KObject]"


section \<open>Reference definitions and example stores\<close>

text \<open>
  The first occurrence of each element, as the property of \<open>uniq\<close> is worded: an element
  is kept unless an earlier one is the same value.
\<close>

fun first_occurrences :: "val list \<Rightarrow> val list \<Rightarrow> val list" where
  "first_occurrences seen [] = []"
| "first_occurrences seen (x # xs) =
     (if x \<in> set seen then first_occurrences seen xs else x # first_occurrences (x # seen) xs)"

definition people :: heap where
  "people =
     [CObj [(''city'', VStr ''Oslo'')], CObj [(''city'', VStr ''Rome'')],
      CObj [(''city'', VStr ''Oslo'')], CArr [VRef 0, VRef 1, VRef 2]]"

definition twins :: heap where
  "twins = [CArr [VNum (Fin 1)], CArr [VNum (Fin 1)],
            CArr [VRef 0, VRef 1, VNum NaN, VRef 0, VNum NaN]]"

definition pair_store :: heap where
  "pair_store = [CArr [VNum (Fin 1)], CArr [VNum (Fin 1)], CObj [(''a'', VRef 0), (''b'', VRef 1)]]"

definition nested :: heap where
  "nested = [CObj [(''b'', VNull)], CObj [(''a'', VRef 0)], CArr [VStr ''x'', VRef 1]]"



section \<open>Properties\<close>

lemma buildFunction_mapM:
  "buildFunction fn cs data h =
     (case mapM (\<lambda>a. a data) cs h of
        (Inl e, h1) \<Rightarrow> (Inl e, h1)
      | (Inr vs, h1) \<Rightarrow> fn vs h1)"
proof -
  consider (one) a where "cs = [a]" | (two) a b where "cs = [a, b]"
    | (other) "length cs \<noteq> 1" "length cs \<noteq> 2"
    by (cases cs; cases "tl cs"; cases "tl (tl cs)") auto
  then show ?thesis
  proof cases
    case one
    then show ?thesis
      by (simp add: buildFunction_def split: prod.splits sum.splits)
  next
    case two
    then show ?thesis
      by (simp add: buildFunction_def split: prod.splits sum.splits)
  next
    case other
    then show ?thesis
      by (simp add: buildFunction_def)
  qed
qed

subsection \<open>Evaluators keep the store\<close>

lemma frameD: "frame f \<Longrightarrow> f x h = (r, h') \<Longrightarrow> prefix h h'"
  by (metis frame_def snd_conv)

lemma frameI: "(\<And>x h r h'. f x h = (r, h') \<Longrightarrow> prefix h h') \<Longrightarrow> frame f"
  by (metis frame_def prod.collapse)

lemma prefix_alloc: "alloc c h = (r, h') \<Longrightarrow> prefix h h'"
  by (auto simp: alloc_def)

lemma prefix_update: "prefix h h' \<Longrightarrow> length h \<le> g \<Longrightarrow> prefix h (h'[g := c])"
  by (auto simp: prefix_def list_update_append)

lemmas ptrans = prefix_order.trans

lemma mapM_frame:
  "frame f \<Longrightarrow> mapM f xs h = (r, h') \<Longrightarrow> prefix h h'"
proof (induction xs arbitrary: h r h')
  case Nil
  then show ?case by simp
next
  case (Cons x xs)
  from Cons.prems(2) show ?case
    by (auto split: prod.splits sum.splits dest: frameD [OF Cons.prems(1)] Cons.IH [OF Cons.prems(1)] intro: ptrans)
qed

lemma pipe_frame:
  "\<forall>e \<in> set es. frame e \<Longrightarrow> pipe_fn es data h = (r, h') \<Longrightarrow> prefix h h'"
proof (induction es arbitrary: data h r h')
  case Nil
  then show ?case by simp
next
  case (Cons e es)
  from Cons.prems have fe: "frame e" and fes: "\<forall>e \<in> set es. frame e" by auto
  from Cons.prems(2) show ?case
    by (auto split: prod.splits sum.splits dest: frameD [OF fe] Cons.IH [OF fes] intro: ptrans)
qed

lemma run_getters_frame:
  "\<forall>g \<in> set gs. frame (snd g) \<Longrightarrow> run_getters gs data obj h = (r, h') \<Longrightarrow> prefix h h'"
proof (induction gs arbitrary: obj h r h')
  case Nil
  then show ?case by simp
next
  case (Cons g gs)
  obtain key getter where g: "g = (key, getter)" by (cases g)
  from Cons.prems g have fe: "frame getter" and fes: "\<forall>g \<in> set gs. frame (snd g)" by auto
  from Cons.prems(2) show ?case unfolding g
    by (auto split: prod.splits sum.splits dest: frameD [OF fe] Cons.IH [OF fes] intro: ptrans)
qed

lemma filterM_frame:
  "frame p \<Longrightarrow> filterM p xs h = (r, h') \<Longrightarrow> prefix h h'"
proof (induction xs arbitrary: h r h')
  case Nil
  then show ?case by simp
next
  case (Cons x xs)
  from Cons.prems(2) show ?case
    by (auto split: prod.splits sum.splits dest: frameD [OF Cons.prems(1)] Cons.IH [OF Cons.prems(1)] intro: ptrans)
qed

lemma compare_frame:
  "frame getter \<Longrightarrow> frame (compare getter sign a)"
  by (rule frameI) (auto simp: compare_def split: prod.splits sum.splits bool.splits dest: frameD intro: ptrans)

lemma insert_sorted_frame:
  "\<forall>x. frame (cmp x) \<Longrightarrow> insert_sorted cmp x ys h = (r, h') \<Longrightarrow> prefix h h'"
proof (induction ys arbitrary: h r h')
  case Nil
  then show ?case by simp
next
  case (Cons y ys)
  from Cons.prems(1) have c: "frame (cmp x)" by simp
  from Cons.prems(2) show ?case
    by (auto split: prod.splits sum.splits if_splits dest: frameD [OF c] Cons.IH [OF Cons.prems(1)] intro: ptrans)
qed

lemma sort_list_frame:
  "\<forall>x. frame (cmp x) \<Longrightarrow> sort_list cmp xs h = (r, h') \<Longrightarrow> prefix h h'"
proof (induction xs arbitrary: h r h')
  case Nil
  then show ?case by simp
next
  case (Cons x xs)
  from Cons.prems(2) show ?case
    by (auto split: prod.splits sum.splits dest: insert_sorted_frame [OF Cons.prems(1)] Cons.IH [OF Cons.prems(1)] intro: ptrans)
qed

lemma array_sort_frame:
  "\<forall>x. frame (cmp x) \<Longrightarrow> array_sort cmp xs h = (r, h') \<Longrightarrow> prefix h h'"
  by (auto simp: array_sort_def split: prod.splits sum.splits if_splits dest: sort_list_frame)

lemma sort_fn_frame: "frame getter \<Longrightarrow> frame (sort_fn getter desc)"
proof (rule frameI)
  fix data h r h'
  assume g: "frame getter" and s: "sort_fn getter desc data h = (r, h')"
  have c: "\<forall>x. frame (compare getter (if desc then - 1 else 1) x)"
    using g by (simp add: compare_frame)
  show "prefix h h'"
  proof (cases "as_array h data")
    case (Inl e)
    with s show ?thesis by (simp add: sort_fn_def)
  next
    case (Inr xs)
    obtain r1 h1 where a: "array_sort (compare getter (if desc then - 1 else 1)) xs (h @ [CArr xs]) = (r1, h1)"
      by (cases "array_sort (compare getter (if desc then - 1 else 1)) xs (h @ [CArr xs])")
    from array_sort_frame [OF c a] have "prefix (h @ [CArr xs]) h1" .
    then have p: "prefix h h1" by (metis append_prefixD)
    from s Inr a p show ?thesis
      by (cases r1) (auto simp: sort_fn_def intro: prefix_update)
  qed
qed


lemma literal_frame: "frame (literal_fn l)"
  by (rule frameI) (simp add: literal_fn_def)

lemma get_frame: "frame (get_fn H path)"
  by (rule frameI) (auto simp: get_fn_def split: if_splits)

lemma object_frame: "\<forall>g \<in> set gs. frame (snd g) \<Longrightarrow> frame (object_fn gs)"
  by (rule frameI)
    (auto simp: object_fn_def split: prod.splits sum.splits dest: run_getters_frame prefix_alloc intro: ptrans)

lemma pick_one_frame: "\<forall>g \<in> set gs. frame (snd g) \<Longrightarrow> frame (pick_one gs)"
  by (rule frameI)
    (auto simp: pick_one_def split: prod.splits sum.splits dest: run_getters_frame prefix_alloc intro: ptrans)

lemma array_frame: "\<forall>e \<in> set es. frame e \<Longrightarrow> frame (array_fn es)"
proof (rule frameI)
  fix data h r h'
  assume es: "\<forall>e \<in> set es. frame e" and a: "array_fn es data h = (r, h')"
  have m: "mapM (\<lambda>item. item data) es h = (r1, h1) \<Longrightarrow> prefix h h1" for r1 h1
    using es
  proof (induction es arbitrary: h r1 h1)
    case Nil
    then show ?case by simp
  next
    case (Cons e es)
    from Cons.prems have fe: "frame e" and fes: "\<forall>e \<in> set es. frame e" by auto
    from Cons.prems(1) show ?case
      by (auto split: prod.splits sum.splits dest: frameD [OF fe] Cons.IH [OF _ fes] intro: ptrans)
  qed
  from a show "prefix h h'"
    by (auto simp: array_fn_def split: prod.splits sum.splits dest: m prefix_alloc intro: ptrans)
qed

lemma map_frame: "frame cb \<Longrightarrow> frame (map_fn cb)"
  by (rule frameI)
    (auto simp: map_fn_def split: prod.splits sum.splits dest: mapM_frame prefix_alloc intro: ptrans)

lemma filter_frame: "frame p \<Longrightarrow> frame (filter_fn p)"
  by (rule frameI)
    (auto simp: filter_fn_def split: prod.splits sum.splits dest: filterM_frame prefix_alloc intro: ptrans)

lemma reverse_frame: "frame reverse_fn"
  by (rule frameI) (auto simp: reverse_fn_def split: sum.splits dest: prefix_alloc)

lemma pick_frame: "frame (pick_fn H ps)"
proof -
  have g: "\<forall>g \<in> set (map (pick_getter H) ps). frame (snd g)"
    by (simp add: pick_getter_def get_frame)
  show ?thesis
    by (rule frameI)
      (auto simp: pick_fn_def split: prod.splits sum.splits if_splits
        dest: mapM_frame [OF pick_one_frame [OF g]] frameD [OF pick_one_frame [OF g]] prefix_alloc intro: ptrans)
qed

lemma uniq_frame: "frame uniq_fn"
  by (rule frameI) (auto simp: uniq_fn_def split: sum.splits dest: prefix_alloc)

lemma prod_frame: "frame prod_fn"
  by (rule frameI) (auto simp: prod_fn_def split: sum.splits)

lemma sum_frame: "frame sum_fn"
  by (rule frameI) (auto simp: sum_fn_def split: sum.splits)

lemma average_frame: "frame average_fn"
  by (rule frameI)
    (auto simp: average_fn_def split: prod.splits sum.splits option.splits
      dest: frameD [OF sum_frame])

lemma min_frame: "frame min_fn"
  by (rule frameI) (auto simp: min_fn_def split: sum.splits)

lemma max_frame: "frame max_fn"
  by (rule frameI) (auto simp: max_fn_def split: sum.splits)

lemma if_frame: "frame c \<Longrightarrow> frame t \<Longrightarrow> frame f \<Longrightarrow> frame (if_fn c t f)"
  by (rule frameI)
    (auto simp: if_fn_def split: prod.splits sum.splits if_splits dest: frameD intro: ptrans)

lemma in_frame: "frame g \<Longrightarrow> frame v \<Longrightarrow> frame (in_fn g v)"
  by (rule frameI)
    (auto simp: in_fn_def split: prod.splits sum.splits if_splits dest: frameD intro: ptrans)

lemma not_in_frame: "frame g \<Longrightarrow> frame v \<Longrightarrow> frame (not_in_fn g v)"
  by (rule frameI)
    (auto simp: not_in_fn_def split: prod.splits sum.splits val.splits dest: frameD [OF in_frame])

lemma regex_frame: "frame g \<Longrightarrow> frame (regex_fn re g)"
  by (rule frameI)
    (auto simp: regex_fn_def split: prod.splits sum.splits dest: frameD)

lemma pure_fn_frame: "frame (pure_fn f)"
  by (rule frameI) (simp add: pure_fn_def)

lemma buildFunction_frame:
  assumes fn: "frame fn"
  shows "\<forall>e \<in> set es. frame e \<Longrightarrow> frame (buildFunction fn es)"
proof (rule frameI)
  fix data h r h'
  assume es: "\<forall>e \<in> set es. frame e" and a: "buildFunction fn es data h = (r, h')"
  have m: "mapM (\<lambda>item. item data) es h = (r1, h1) \<Longrightarrow> prefix h h1" for r1 h1
    using es
  proof (induction es arbitrary: h r1 h1)
    case Nil
    then show ?case by simp
  next
    case (Cons e es)
    from Cons.prems have fe: "frame e" and fes: "\<forall>e \<in> set es. frame e" by auto
    from Cons.prems(1) show ?case
      by (auto split: prod.splits sum.splits dest: frameD [OF fe] Cons.IH [OF _ fes] intro: ptrans)
  qed
  from a show "prefix h h'"
    by (auto simp: buildFunction_mapM split: prod.splits sum.splits dest: m frameD [OF fn] intro: ptrans)
qed


lemma group_loop_frame:
  assumes g: "frame getter"
  shows "prefix h0 h \<Longrightarrow> \<forall>a \<in> snd ` set res. length h0 \<le> a
    \<Longrightarrow> group_loop H getter items res h = (r, h') \<Longrightarrow> prefix h0 h'"
proof (induction items arbitrary: res h)
  case Nil
  then show ?case by simp
next
  case (Cons item items)
  obtain r1 h1 where e: "getter item h = (r1, h1)" by (cases "getter item h")
  from frameD [OF g e] Cons.prems(1) have p1: "prefix h0 h1" by (rule ptrans [rotated])
  show ?case
  proof (cases r1)
    case (Inl x)
    with Cons.prems(3) e p1 show ?thesis by simp
  next
    case (Inr v)
    show ?thesis
    proof (cases "to_string h1 v")
      case (Inl x)
      with Cons.prems(3) e Inr p1 show ?thesis by simp
    next
      case key: (Inr key)
      show ?thesis
      proof (cases "map_of res key")
        case None
        show ?thesis
        proof (cases "inherited H KObject key")
          case True
          with Cons.prems(3) e Inr key None p1 show ?thesis by simp
        next
          case False
          have p2: "prefix h0 (h1 @ [CArr [item]])" using p1 by (simp add: prefix_prefix)
          have len: "length h0 \<le> length h1" using p1 by (rule prefix_length_le)
          have r2: "\<forall>a \<in> snd ` set (res @ [(key, length h1)]). length h0 \<le> a"
            using Cons.prems(2) len by auto
          from Cons.prems(3) e Inr key None False
          have "group_loop H getter items (res @ [(key, length h1)]) (h1 @ [CArr [item]]) = (r, h')"
            by simp
          from Cons.IH [OF p2 r2 this] show ?thesis .
        qed
      next
        case (Some a)
        then have "(key, a) \<in> set res" by (rule map_of_SomeD)
        then have la: "length h0 \<le> a" using Cons.prems(2) by force
        show ?thesis
        proof (cases "cell_at h1 a")
          case None
          with Cons.prems(3) e Inr key Some p1 show ?thesis by simp
        next
          case c: (Some c)
          show ?thesis
          proof (cases c)
            case (CObj kvs)
            with Cons.prems(3) e Inr key Some c p1 show ?thesis by simp
          next
            case (CArr xs)
            have p2: "prefix h0 (h1[a := CArr (xs @ [item])])"
              using p1 la by (rule prefix_update)
            from Cons.prems(3) e Inr key Some c CArr
            have "group_loop H getter items res (h1[a := CArr (xs @ [item])]) = (r, h')"
              by simp
            from Cons.IH [OF p2 Cons.prems(2) this] show ?thesis .
          qed
        qed
      qed
    qed
  qed
qed

lemma groupBy_frame: "frame getter \<Longrightarrow> frame (groupBy_fn H getter)"
proof (rule frameI)
  fix data h r h'
  assume g: "frame getter" and a: "groupBy_fn H getter data h = (r, h')"
  have l: "group_loop H getter items [] h = (r1, h1) \<Longrightarrow> prefix h h1" for items r1 h1
    using group_loop_frame [OF g, of h h "[]" H items r1 h1] by simp
  from a show "prefix h h'"
    by (auto simp: groupBy_fn_def split: prod.splits sum.splits dest: l prefix_alloc intro: ptrans)
qed

lemma key_loop_frame:
  "frame getter \<Longrightarrow> key_loop H getter items res h = (r, h') \<Longrightarrow> prefix h h'"
proof (induction items arbitrary: res h r h')
  case Nil
  then show ?case by simp
next
  case (Cons item items)
  from Cons.prems(2) show ?case
    by (auto split: prod.splits sum.splits if_splits
        dest: frameD [OF Cons.prems(1)] Cons.IH [OF Cons.prems(1)] intro: ptrans)
qed

lemma keyBy_frame: "frame getter \<Longrightarrow> frame (keyBy_fn H getter)"
  by (rule frameI)
    (auto simp: keyBy_fn_def split: prod.splits sum.splits dest: key_loop_frame prefix_alloc intro: ptrans)

lemma keys_frame: "frame keys_fn"
  by (rule frameI) (auto simp: keys_fn_def split: sum.splits dest: prefix_alloc)

lemma values_frame: "frame values_fn"
  by (rule frameI) (auto simp: values_fn_def split: sum.splits dest: prefix_alloc)

lemma mapObject_loop_frame:
  "frame callback \<Longrightarrow> mapObject_loop H callback kvs out h = (r, h') \<Longrightarrow> prefix h h'"
proof (induction kvs arbitrary: out h r h')
  case Nil
  then show ?case by simp
next
  case (Cons kv kvs)
  obtain key v where kv: "kv = (key, v)" by (cases kv)
  define entry where "entry = CObj [(''key'', VStr key), (''value'', v)]"
  obtain r1 h1 where c: "callback (VRef (length h)) (h @ [entry]) = (r1, h1)"
    by (cases "callback (VRef (length h)) (h @ [entry])")
  from frameD [OF Cons.prems(1) c] have p: "prefix h h1" by (rule append_prefixD)
  from Cons.prems(2) c p show ?case unfolding kv mapObject_loop.simps entry_def [symmetric]
    by (auto split: sum.splits dest: Cons.IH [OF Cons.prems(1)] intro: ptrans)
qed

lemma mapObject_frame: "frame callback \<Longrightarrow> frame (mapObject_fn H callback)"
  by (rule frameI)
    (auto simp: mapObject_fn_def split: prod.splits sum.splits
      dest: mapObject_loop_frame prefix_alloc intro: ptrans)

lemma mapKeys_loop_frame:
  "frame callback \<Longrightarrow> mapKeys_loop callback kvs out h = (r, h') \<Longrightarrow> prefix h h'"
proof (induction kvs arbitrary: out h r h')
  case Nil
  then show ?case by simp
next
  case (Cons kv kvs)
  obtain key v where kv: "kv = (key, v)" by (cases kv)
  from Cons.prems(2) show ?case unfolding kv
    by (auto split: prod.splits sum.splits
        dest: frameD [OF Cons.prems(1)] Cons.IH [OF Cons.prems(1)] intro: ptrans)
qed

lemma mapKeys_frame: "frame callback \<Longrightarrow> frame (mapKeys_fn callback)"
  by (rule frameI)
    (auto simp: mapKeys_fn_def split: prod.splits sum.splits
      dest: mapKeys_loop_frame prefix_alloc intro: ptrans)

lemma mapValues_loop_frame:
  "frame callback \<Longrightarrow> mapValues_loop callback kvs out h = (r, h') \<Longrightarrow> prefix h h'"
proof (induction kvs arbitrary: out h r h')
  case Nil
  then show ?case by simp
next
  case (Cons kv kvs)
  obtain key v where kv: "kv = (key, v)" by (cases kv)
  from Cons.prems(2) show ?case unfolding kv
    by (auto split: prod.splits sum.splits
        dest: frameD [OF Cons.prems(1)] Cons.IH [OF Cons.prems(1)] intro: ptrans)
qed

lemma mapValues_frame: "frame callback \<Longrightarrow> frame (mapValues_fn callback)"
  by (rule frameI)
    (auto simp: mapValues_fn_def split: prod.splits sum.splits
      dest: mapValues_loop_frame prefix_alloc intro: ptrans)

lemma uniqBy_frame: "\<forall>g. getter = Inr g \<longrightarrow> frame g \<Longrightarrow> frame (uniqBy_fn H getter)"
proof (cases getter)
  case (Inl e)
  then show ?thesis by (auto intro!: frameI simp: uniqBy_fn_def)
next
  case (Inr g)
  assume "\<forall>g. getter = Inr g \<longrightarrow> frame g"
  with Inr have g: "frame g" by simp
  show ?thesis unfolding Inr
    by (rule frameI)
      (auto simp: uniqBy_fn_def split: prod.splits sum.splits
        dest: frameD [OF keyBy_frame [OF g]] frameD [OF values_frame] intro: ptrans)
qed

lemma flatten_frame: "frame flatten_fn"
  by (rule frameI) (auto simp: flatten_fn_def split: sum.splits dest: prefix_alloc)

lemma join_frame: "frame (join_fn separator)"
  by (rule frameI) (auto simp: join_fn_def split: sum.splits)

lemma split_frame: "frame split_fn"
  by (rule frameI) (auto simp: split_fn_def split: val.splits sum.splits if_splits dest: prefix_alloc)

lemma substring_frame: "frame substring_fn"
  by (rule frameI)
    (auto simp: substring_fn_def split: val.splits sum.splits if_splits option.splits cell.splits
      dest: prefix_alloc)

lemma limit_frame: "frame (limit_fn count)"
  by (rule frameI)
    (auto simp: limit_fn_def split: val.splits sum.splits if_splits option.splits cell.splits
      dest: prefix_alloc)

lemma size_frame: "frame (size_fn H)"
  by (rule frameI) (auto simp: size_fn_def split: if_splits)

lemma exists_frame: "frame (exists_fn H path)"
  by (rule frameI)
    (auto simp: exists_fn_def split: prod.splits sum.splits if_splits dest: frameD [OF get_frame])

lemma string_frame: "frame string_fn"
  by (rule frameI) (auto simp: string_fn_def split: if_splits)

lemma relational_frame: "frame gt_fn" "frame gte_fn" "frame lt_fn" "frame lte_fn"
  by (rule frameI, simp add: gt_fn_def gte_fn_def lt_fn_def lte_fn_def)+

lemma sequence_Inr: "sequence cs = Inr xs \<Longrightarrow> cs = map Inr xs"
  by (induction cs arbitrary: xs) (auto split: sum.splits)

lemma map_sum_Inr: "map_sum id f x = Inr y \<Longrightarrow> \<exists>z. x = Inr z \<and> y = f z"
  by (cases x) auto

lemma build_all_frame:
  "(\<And>es. \<forall>e \<in> set es. frame e \<Longrightarrow> frame (f es)) \<Longrightarrow> frame_builder (build_all f)"
  unfolding frame_builder_def build_all_def
  by (auto dest!: map_sum_Inr sequence_Inr)

lemma build_none_frame: "frame ev \<Longrightarrow> frame_builder (build_none ev)"
  by (simp add: frame_builder_def build_none_def)

lemma build_one_frame:
  "(\<And>e. frame e \<Longrightarrow> frame (f e)) \<Longrightarrow> frame_builder (build_one f)"
  unfolding frame_builder_def build_one_def
  by (auto split: list.splits dest!: map_sum_Inr)

lemma build_two_frame:
  "(\<And>a b. frame a \<Longrightarrow> frame b \<Longrightarrow> frame (f a b)) \<Longrightarrow> frame_builder (build_two f)"
  unfolding frame_builder_def build_two_def
  by (auto split: list.splits sum.splits)

lemma build_get_frame: "frame_builder build_get"
  by (auto simp: frame_builder_def build_get_def get_frame split: option.splits)

lemma build_object_frame: "frame_builder build_object"
  by (auto simp: frame_builder_def build_object_def split: list.splits query.splits)

lemma build_sort_frame: "frame_builder build_sort"
  unfolding frame_builder_def build_sort_def
  by (auto split: list.splits dest!: map_sum_Inr simp: get_frame sort_fn_frame)

lemma build_pick_frame: "frame_builder build_pick"
  by (auto simp: frame_builder_def build_pick_def pick_frame split: option.splits)

lemma build_if_frame: "frame_builder build_if"
  unfolding frame_builder_def build_if_def
  by (auto split: list.splits sum.splits simp: if_frame)

lemma build_regex_frame: "frame_builder build_regex"
  unfolding frame_builder_def build_regex_def
  by (auto split: list.splits sum.splits query.splits lit.splits option.splits
      dest!: map_sum_Inr simp: regex_frame)

lemma build_groupBy_frame: "frame_builder (\<lambda>H. build_one (groupBy_fn H) H)"
  unfolding frame_builder_def build_one_def
  by (auto split: list.splits dest!: map_sum_Inr simp: groupBy_frame)

lemma build_keyBy_frame: "frame_builder (\<lambda>H. build_one (keyBy_fn H) H)"
  unfolding frame_builder_def build_one_def
  by (auto split: list.splits dest!: map_sum_Inr simp: keyBy_frame)

lemma build_join_frame: "frame_builder build_join"
  by (auto simp: frame_builder_def build_join_def join_frame
      split: list.splits query.splits sum.splits)

lemma build_limit_frame: "frame_builder build_limit"
  by (auto simp: frame_builder_def build_limit_def limit_frame split: list.splits query.splits)

lemma build_exists_frame: "frame_builder build_exists"
  by (auto simp: frame_builder_def build_exists_def exists_frame
      split: list.splits query.splits option.splits)

lemma map_sum_thrown: "map_sum thrown id c = Inr g \<Longrightarrow> c = Inr g"
  by (cases c) auto

lemma build_uniqBy_frame: "frame_builder build_uniqBy"
  unfolding frame_builder_def build_uniqBy_def
  by (auto split: list.splits intro!: uniqBy_frame dest!: map_sum_thrown)

lemma build_mapObject_frame: "frame_builder (\<lambda>H. build_one (mapObject_fn H) H)"
  unfolding frame_builder_def build_one_def
  by (auto split: list.splits dest!: map_sum_Inr simp: mapObject_frame)

lemma build_size_frame: "frame_builder (\<lambda>H. build_none (size_fn H) H)"
  by (simp add: frame_builder_def build_none_def size_frame)

lemma functions_map_frame: "map_of functions_map name = Some b \<Longrightarrow> frame_builder b"
proof -
  have "\<forall>b \<in> snd ` set functions_map. frame_builder b"
    unfolding functions_map_def
    by (simp add: build_all_frame build_none_frame build_one_frame build_two_frame
        build_get_frame build_object_frame build_sort_frame build_pick_frame build_if_frame
        build_regex_frame build_groupBy_frame build_keyBy_frame
        pipe_frame [THEN frameI] array_frame map_frame filter_frame reverse_frame uniq_frame
        prod_frame sum_frame average_frame min_frame max_frame buildFunction_frame pure_fn_frame
        in_frame not_in_frame build_join_frame build_limit_frame build_exists_frame
        build_uniqBy_frame build_mapObject_frame build_size_frame mapKeys_frame mapValues_frame
        flatten_frame split_frame substring_frame keys_frame values_frame string_frame
        relational_frame)
  moreover assume "map_of functions_map name = Some b"
  then have "b \<in> snd ` set functions_map" by (metis map_of_SomeD snd_conv image_eqI)
  ultimately show ?thesis by blast
qed

lemma compile_frame: "compile H q = Inr ev \<Longrightarrow> frame ev"
proof (induction H q arbitrary: ev rule: compile.induct)
  case (1 H l)
  then show ?case by (auto simp: literal_frame)
next
  case (2 H name args)
  from "2.prems" obtain b where b: "map_of functions_map name = Some b"
    and r: "b H args (map (compile H) args) = Inr ev"
    by (auto split: option.splits)
  have "\<forall>c \<in> set (map (compile H) args). \<forall>e. c = Inr e \<longrightarrow> frame e"
    using "2.IH" [OF b] by auto
  with functions_map_frame [OF b] r show ?case
    unfolding frame_builder_def by blast
next
  case (3 H kqs)
  from "3.prems" obtain gs where
    s: "sequence (map (\<lambda>(key, q). map_sum id (Pair key) (compile H q)) kqs) = Inr gs"
    and ev: "ev = object_fn gs"
    by (auto dest!: map_sum_Inr)
  have "\<forall>g \<in> set gs. frame (snd g)"
  proof
    fix g assume "g \<in> set gs"
    with sequence_Inr [OF s] have "Inr g \<in> set (map (\<lambda>(key, q). map_sum id (Pair key) (compile H q)) kqs)"
      by simp
    then obtain key q where kq: "(key, q) \<in> set kqs" and m: "map_sum id (Pair key) (compile H q) = Inr g"
      by auto
    from map_sum_Inr [OF m] obtain e where "compile H q = Inr e" "g = (key, e)" by auto
    with "3.IH" [OF kq] show "frame (snd g)" by simp
  qed
  with ev show ?case by (simp add: object_frame)
qed

text \<open>
  C9. No evaluator mutates its input: whatever query compiles, every cell that the store
  held before the evaluator ran holds the same content afterwards, whether the evaluator
  returns or throws. What \<open>sort\<close>, \<open>reverse\<close>, \<open>object\<close>, \<open>array\<close>, \<open>pick\<close>, \<open>map\<close>,
  \<open>groupBy\<close> and the other builders write goes to cells allocated during the call.
\<close>

theorem evaluators_keep_store:
  assumes "compile H q = Inr ev" and "a < length h"
  shows "cell_at (snd (ev data h)) a = cell_at h a"
proof -
  from compile_frame [OF assms(1)] have "prefix h (snd (ev data h))"
    by (simp add: frame_def)
  then obtain ext where "snd (ev data h) = h @ ext" by (auto simp: prefix_def)
  with assms(2) show ?thesis by (simp add: cell_at_def nth_append)
qed

theorem evaluators_keep_store_witness:
  "jsonquery es2023 (VRef 3) (Function ''groupBy'' [Function ''get'' [Literal (LStr ''city'')]]) people
     = Inr (Inr (VRef 6),
         people @ [CArr [VRef 0, VRef 2], CArr [VRef 1], CObj [(''Oslo'', VRef 4), (''Rome'', VRef 5)]])
   \<and> cell_at (snd (groupBy_fn es2023 (get_fn es2023 [''city'']) (VRef 3) people)) 3 = cell_at people 3"
proof -
  have c: "compile es2023 (Function ''groupBy'' [Function ''get'' [Literal (LStr ''city'')]])
      = Inr (groupBy_fn es2023 (get_fn es2023 [''city'']))"
    by (simp add: functions_map_def build_one_def build_get_def)
  have "(3::nat) < length people" by (simp add: people_def)
  from evaluators_keep_store [OF c this, of "VRef 3"]
  have "cell_at (snd (groupBy_fn es2023 (get_fn es2023 [''city'']) (VRef 3) people)) 3 = cell_at people 3" .
  moreover have "jsonquery es2023 (VRef 3) (Function ''groupBy'' [Function ''get'' [Literal (LStr ''city'')]]) people
     = Inr (Inr (VRef 6),
         people @ [CArr [VRef 0, VRef 2], CArr [VRef 1], CObj [(''Oslo'', VRef 4), (''Rome'', VRef 5)]])"
    by code_simp
  ultimately show ?thesis by simp
qed

text \<open>
  C4. \<open>and\<close>, \<open>or\<close> and \<open>not\<close> return booleans, but they test with the language's own
  \<open>!!\<close> and not with \<open>truthy\<close>, the test of \<open>filter\<close> and \<open>if\<close>: the empty string is
  truthy and still \<open>not("")\<close> is true and \<open>and("", true)\<close> is false.
\<close>

theorem logic_empty_string:
  "truthy (VStr '''') \<and> truthy (VBool True)
   \<and> not_fn [VStr ''''] = Inr (VBool True)
   \<and> and_fn [VStr '''', VBool True] = Inr (VBool False)
   \<and> or_fn [VStr '''', VBool False] = Inr (VBool False)"
  by (simp add: truthy_def not_fn_def and_fn_def or_fn_def arg_def)

text \<open>
  C2. On an empty array \<open>sum\<close>, \<open>prod\<close> and \<open>average\<close> throw a \<open>TypeError\<close> (\<open>reduce\<close> has
  no initial value), \<open>min\<close> returns \<open>Infinity\<close> and \<open>max\<close> returns \<open>-Infinity\<close>.
\<close>

theorem folds_empty:
  assumes "cell_at h a = Some (CArr [])"
  shows "sum_fn (VRef a) h = (Inl TypeError, h)
    \<and> prod_fn (VRef a) h = (Inl TypeError, h)
    \<and> average_fn (VRef a) h = (Inl TypeError, h)
    \<and> min_fn (VRef a) h = (Inr (VNum PInf), h)
    \<and> max_fn (VRef a) h = (Inr (VNum NInf), h)"
  using assms
  by (simp add: sum_fn_def prod_fn_def average_fn_def min_fn_def max_fn_def)

theorem folds_empty_witness:
  "sum_fn (VRef 1) [CObj [], CArr []] = (Inl TypeError, [CObj [], CArr []])
   \<and> max_fn (VRef 1) [CObj [], CArr []] = (Inr (VNum NInf), [CObj [], CArr []])"
proof -
  have "cell_at [CObj [], CArr []] 1 = Some (CArr [])" by (simp add: cell_at_def)
  from folds_empty [OF this] show ?thesis by simp
qed

theorem folds_empty_counterexample:
  "sum_fn (VRef 0) [CArr []] = (Inl TypeError, [CArr []])
   \<and> prod_fn (VRef 0) [CArr []] = (Inl TypeError, [CArr []])
   \<and> average_fn (VRef 0) [CArr []] = (Inl TypeError, [CArr []])
   \<and> min_fn (VRef 0) [CArr []] = (Inr (VNum PInf), [CArr []])
   \<and> max_fn (VRef 0) [CArr []] = (Inr (VNum NInf), [CArr []])"
  by (simp add: sum_fn_def prod_fn_def average_fn_def min_fn_def max_fn_def cell_at_def)

subsection \<open>uniq\<close>

lemma set_add_foldl_set: "set (foldl set_add acc xs) = set acc \<union> set xs"
  by (induction xs arbitrary: acc) (auto simp: set_add_def same_value_zero_def list_ex_iff)

lemma set_add_foldl_distinct: "distinct acc \<Longrightarrow> distinct (foldl set_add acc xs)"
  by (induction xs arbitrary: acc) (auto simp: set_add_def same_value_zero_def list_ex_iff)

lemma first_occurrences_cong: "set s = set t \<Longrightarrow> first_occurrences s xs = first_occurrences t xs"
proof (induction xs arbitrary: s t)
  case Nil
  show ?case by simp
next
  case (Cons x xs)
  have "first_occurrences s xs = first_occurrences t xs"
    using Cons.prems by (rule Cons.IH)
  moreover have "first_occurrences (x # s) xs = first_occurrences (x # t) xs"
    using Cons.prems by (intro Cons.IH) simp
  ultimately show ?case using Cons.prems by simp
qed

lemma foldl_set_add_first: "foldl set_add acc xs = acc @ first_occurrences acc xs"
proof (induction xs arbitrary: acc)
  case Nil
  show ?case by simp
next
  case (Cons x xs)
  have "first_occurrences (acc @ [x]) xs = first_occurrences (x # acc) xs"
    by (rule first_occurrences_cong) auto
  with Cons show ?case
    by (simp add: set_add_def same_value_zero_def list_ex_iff)
qed

text \<open>
  C10. \<open>uniq\<close> compares by identity (\<open>SameValueZero\<close>), not by value: of an array it
  returns a fresh array with the first occurrence of each element, where two elements
  are the same when they are the same primitive, \<open>NaN\<close> included, or the same reference.
  Two arrays or objects with equal contents at different addresses both stay.
\<close>

theorem uniq_by_identity:
  assumes "cell_at h a = Some (CArr xs)"
  shows "\<exists>ys. uniq_fn (VRef a) h = (Inr (VRef (length h)), h @ [CArr ys])
    \<and> ys = first_occurrences [] xs \<and> distinct ys \<and> set ys = set xs"
proof -
  have "uniq_fn (VRef a) h = (Inr (VRef (length h)), h @ [CArr (foldl set_add [] xs)])"
    using assms by (simp add: uniq_fn_def new_set_def alloc_def)
  moreover have "foldl set_add [] xs = first_occurrences [] xs"
    by (simp add: foldl_set_add_first)
  moreover have "distinct (foldl set_add [] xs)" by (simp add: set_add_foldl_distinct)
  moreover have "set (foldl set_add [] xs) = set xs" by (simp add: set_add_foldl_set)
  ultimately show ?thesis by simp
qed

theorem uniq_by_identity_witness:
  "uniq_fn (VRef 2) twins = (Inr (VRef 3), twins @ [CArr [VRef 0, VRef 1, VNum NaN]])"
proof -
  have c: "cell_at twins 2 = Some (CArr [VRef 0, VRef 1, VNum NaN, VRef 0, VNum NaN])"
    by (simp add: twins_def cell_at_def)
  have l: "length twins = 3" by (simp add: twins_def)
  from uniq_by_identity [OF c] show ?thesis by (simp add: l)
qed

text \<open>
  C3. \<open>eq\<close>, \<open>ne\<close> and \<open>in\<close> compare by identity: \<open>eq\<close> is true exactly for two equal
  primitives other than \<open>NaN\<close> and for one and the same array or object, so two
  references to different cells are unequal whatever the cells hold; \<open>ne\<close> is its
  negation; \<open>in\<close> is true exactly when the array of values holds the same primitive
  (\<open>NaN\<close> included) or the same reference, and \<open>not in\<close> is its negation.
\<close>

theorem eq_is_identity:
  "eq_fn [a, b] = Inr (VBool (a = b \<and> a \<noteq> VNum NaN))
   \<and> ne_fn [a, b] = Inr (VBool (\<not> (a = b \<and> a \<noteq> VNum NaN)))
   \<and> (r \<noteq> s \<longrightarrow> eq_fn [VRef r, VRef s] = Inr (VBool False))
   \<and> eq_fn [VNum NaN, b] = Inr (VBool False)
   \<and> (vals data h = (Inr (VRef r), hv) \<and> getter data hv = (Inr a, hg)
        \<and> cell_at hg r = Some (CArr xs) \<longrightarrow>
          in_fn getter vals data h = (Inr (VBool (a \<in> set xs)), hg)
          \<and> not_in_fn getter vals data h = (Inr (VBool (a \<notin> set xs)), hg))"
  by (auto simp: eq_fn_def ne_fn_def arg_def strict_eq_def same_value_zero_def list_ex_iff
      in_fn_def not_in_fn_def)

theorem eq_is_identity_witness:
  "eq_fn [VRef 0, VRef 1] = Inr (VBool False)
   \<and> eq_fn [VRef 0, VRef 0] = Inr (VBool True)
   \<and> in_fn (literal_fn (LNum NaN)) (get_fn es2023 []) (VRef 0) [CArr [VNum (Fin 1), VNum NaN]]
       = (Inr (VBool True), [CArr [VNum (Fin 1), VNum NaN]])"
proof -
  let ?h = "[CArr [VNum (Fin 1), VNum NaN]]"
  have v: "get_fn es2023 [] (VRef 0) ?h = (Inr (VRef 0), ?h)"
    by (simp add: get_fn_def or_null_def)
  have g: "literal_fn (LNum NaN) (VRef 0) ?h = (Inr (VNum NaN), ?h)"
    by (simp add: literal_fn_def)
  have c: "cell_at ?h 0 = Some (CArr [VNum (Fin 1), VNum NaN])" by (simp add: cell_at_def)
  have "(0::nat) \<noteq> 1" by simp
  with eq_is_identity [where a = "VRef 0" and b = "VRef 1" and r = 0 and s = 1]
  have "eq_fn [VRef 0, VRef 1] = Inr (VBool False)" by blast
  moreover from eq_is_identity [where a = "VRef 0" and b = "VRef 0"]
  have "eq_fn [VRef 0, VRef 0] = Inr (VBool True)" by simp
  moreover from eq_is_identity [where a = "VNum NaN" and vals = "get_fn es2023 []"
      and getter = "literal_fn (LNum NaN)" and data = "VRef 0" and h = ?h and hv = ?h and hg = ?h
      and r = 0 and xs = "[VNum (Fin 1), VNum NaN]"] v g c
  have "in_fn (literal_fn (LNum NaN)) (get_fn es2023 []) (VRef 0) ?h = (Inr (VBool True), ?h)"
    by simp
  ultimately show ?thesis by simp
qed

theorem eq_structural_counterexample:
  "jsonquery es2023 (VRef 2)
     (Function ''eq'' [Function ''get'' [Literal (LStr ''a'')], Function ''get'' [Literal (LStr ''b'')]])
     pair_store = Inr (Inr (VBool False), pair_store)
   \<and> jsonquery es2023 (VRef 2)
     (Function ''in'' [Function ''get'' [Literal (LStr ''a'')],
        Function ''array'' [Function ''get'' [Literal (LStr ''b'')]]])
     pair_store = Inr (Inr (VBool False), pair_store @ [CArr [VRef 1]])
   \<and> jsonquery es2023 (VRef 2)
     (Function ''in'' [Literal (LNum NaN), Function ''array'' [Literal (LNum NaN)]])
     pair_store = Inr (Inr (VBool True), pair_store @ [CArr [VNum NaN]])"
  by code_simp




subsection \<open>round\<close>

lemma shift10_powi: "shift10 q d = q * 10 powi d"
proof (cases "0 \<le> d")
  case True
  then show ?thesis by (simp add: shift10_def power_int_def)
next
  case False
  have "inverse (10::rat) ^ nat (- d) = 1 / 10 ^ nat (- d)"
    by (simp add: power_one_over inverse_eq_divide)
  with False show ?thesis by (simp add: shift10_def power_int_def)
qed

lemma shift10_add: "shift10 (shift10 q a) b = shift10 q (a + b)"
  by (simp add: shift10_powi power_int_add mult.assoc)

lemma shift10_back: "shift10 (shift10 q d) (- d) = q"
  by (simp add: shift10_add) (simp add: shift10_def)

lemma shift10_strict_mono: "a < b \<Longrightarrow> shift10 a d < shift10 b d"
  by (auto simp: shift10_def divide_strict_right_mono)

lemma is_int_of_int: "is_int (of_int n)"
  by (simp add: is_int_def)

lemma is_intE: "is_int q \<Longrightarrow> \<exists>n. q = of_int n"
  by (metis is_int_def)

lemma is_int_shift10: "is_int q \<Longrightarrow> 0 \<le> d \<Longrightarrow> is_int (shift10 q d)"
proof -
  assume "is_int q" "0 \<le> d"
  then obtain n where "q = of_int n" by (auto dest: is_intE)
  with \<open>0 \<le> d\<close> have "shift10 q d = of_int (n * 10 ^ nat d)" by (simp add: shift10_def)
  then show ?thesis by (simp only: is_int_of_int)
qed

lemma modelledI:
  "is_int (shift10 q (- e)) \<Longrightarrow> \<bar>shift10 q (- e)\<bar> < 10 ^ 15 \<Longrightarrow> - 30 \<le> e \<Longrightarrow> e \<le> 30 \<Longrightarrow> modelled q"
  unfolding modelled_def list_ex_iff set_upto by (intro bexI [of _ e]) simp_all

lemma modelledE:
  "modelled q \<Longrightarrow> \<exists>e. - 30 \<le> e \<and> e \<le> 30 \<and> is_int (shift10 q (- e)) \<and> \<bar>shift10 q (- e)\<bar> < 10 ^ 15"
  unfolding modelled_def list_ex_iff set_upto by (elim bexE) (simp only: atLeastAtMost_iff, blast)

lemma modelled_int: "\<bar>rat_of_int n\<bar> < 10 ^ 15 \<Longrightarrow> modelled (of_int n)"
  by (rule modelledI [where e = 0]) (simp_all add: shift10_def is_int_of_int)

lemma positional_int: "\<bar>rat_of_int n\<bar> < 10 ^ 21 \<Longrightarrow> positional (of_int n)"
proof -
  assume b: "\<bar>rat_of_int n\<bar> < 10 ^ 21"
  show ?thesis
  proof (cases "n = 0")
    case True
    then show ?thesis by (simp add: positional_def)
  next
    case False
    then have "1 \<le> \<bar>n\<bar>" by simp
    then have "(1::rat) \<le> \<bar>of_int n\<bar>" by (metis of_int_1_le_iff of_int_abs)
    then have "(1::rat) / 10 ^ 6 \<le> \<bar>of_int n\<bar>" by simp
    with b show ?thesis by (simp add: positional_def)
  qed
qed

text \<open>A number of the model with a half at some digit is small there.\<close>

lemma tie_small:
  assumes m: "modelled q" and t: "shift10 q d - of_int \<lfloor>shift10 q d\<rfloor> = 1 / 2"
  shows "\<bar>shift10 q d\<bar> < 10 ^ 14"
proof -
  from modelledE [OF m] obtain e where e: "is_int (shift10 q (- e))" "\<bar>shift10 q (- e)\<bar> < 10 ^ 15"
    by blast
  let ?M = "shift10 q (- e)"
  have s: "shift10 q d = shift10 ?M (e + d)" by (simp add: shift10_add)
  have neg: "e + d < 0"
  proof (rule ccontr)
    assume "\<not> e + d < 0"
    then have "is_int (shift10 ?M (e + d))" by (intro is_int_shift10 e(1)) simp
    then have "is_int (shift10 q d)" by (simp only: s)
    then have "of_int \<lfloor>shift10 q d\<rfloor> = shift10 q d" unfolding is_int_def .
    with t show False by simp
  qed
  from neg have eq: "shift10 ?M (e + d) = ?M / 10 ^ nat (- (e + d))" by (simp add: shift10_def)
  have ten: "(10::rat) \<le> 10 ^ nat (- (e + d))"
  proof -
    from neg have "1 \<le> nat (- (e + d))" by simp
    then have "(10::rat) ^ 1 \<le> 10 ^ nat (- (e + d))" by (intro power_increasing) simp_all
    then show ?thesis by simp
  qed
  have "\<bar>?M\<bar> / 10 ^ nat (- (e + d)) \<le> \<bar>?M\<bar> / 10"
    using ten by (intro divide_left_mono) simp_all
  then have "\<bar>shift10 ?M (e + d)\<bar> \<le> \<bar>?M\<bar> / 10"
    unfolding eq by (simp add: abs_divide)
  with e(2) s show ?thesis by simp
qed

lemma round_tie:
  assumes m: "modelled q" and p: "positional q" and d: "- 30 \<le> d" "d \<le> 30"
    and t: "shift10 q d - of_int \<lfloor>shift10 q d\<rfloor> = 1 / 2"
  shows "round_fn [VNum (Fin q), VNum (Fin (of_int d))]
      = Inr (VNum (Fin (shift10 (shift10 q d + 1 / 2) (- d))))
    \<and> q < shift10 (shift10 q d + 1 / 2) (- d)"
proof -
  let ?s = "shift10 q d"
  let ?n = "\<lfloor>?s\<rfloor> + 1"
  have up: "?s + 1 / 2 = of_int ?n" using t by simp
  then have fl: "of_int \<lfloor>?s + 1 / 2\<rfloor> = ?s + 1 / 2" by (metis floor_of_int)
  from tie_small [OF m t] have small: "\<bar>?s\<bar> < 10 ^ 14" .
  have dd: "\<bar>rat_of_int d\<bar> < 10 ^ 15" "\<bar>rat_of_int d\<bar> < 10 ^ 21"
  proof -
    from d have "\<bar>d\<bar> \<le> 30" by simp
    then have "\<bar>rat_of_int d\<bar> \<le> 30" by (metis of_int_abs of_int_le_iff of_int_numeral)
    then show "\<bar>rat_of_int d\<bar> < 10 ^ 15" "\<bar>rat_of_int d\<bar> < 10 ^ 21" by simp_all
  qed
  have kd: "known (Fin (of_int d)) = Inr (Fin (of_int d))"
    using modelled_int [OF dd(1)] by (simp add: known_def)
  have kq: "known (Fin q) = Inr (Fin q)" using m by (simp add: known_def)
  have ms: "modelled ?s"
  proof (rule modelledI [where e = "- 1"])
    have "shift10 ?s (- (- 1)) = of_int (10 * \<lfloor>?s\<rfloor> + 5)"
      using t by (simp add: shift10_def algebra_simps)
    then show "is_int (shift10 ?s (- (- 1)))" by (simp only: is_int_of_int)
    show "\<bar>shift10 ?s (- (- 1))\<bar> < 10 ^ 15" using small by (simp add: shift10_def abs_mult)
  qed simp_all
  have w1: "with_exponent (Fin q) (Fin (of_int d)) = Inr (Fin ?s)"
    using p dd(2) ms by (simp add: with_exponent_def is_int_of_int known_def)
  have nb: "\<bar>rat_of_int ?n\<bar> < 10 ^ 15"
  proof -
    have "\<bar>rat_of_int ?n\<bar> = \<bar>?s + 1 / 2\<bar>" by (simp only: up)
    also have "\<dots> \<le> \<bar>?s\<bar> + 1 / 2" by (rule order_trans [OF abs_triangle_ineq]) simp
    also have "\<dots> < 10 ^ 15" using small by simp
    finally show ?thesis .
  qed
  then have "\<bar>rat_of_int ?n\<bar> < 10 ^ 21" by simp
  then have pn: "positional (of_int ?n)" by (rule positional_int)
  have mr: "modelled (shift10 (of_int ?n) (- d))"
  proof (rule modelledI [where e = "- d"])
    have "shift10 (shift10 (of_int ?n) (- d)) (- (- d)) = of_int ?n"
      using shift10_back [of "of_int ?n" "- d"] by simp
    then show "is_int (shift10 (shift10 (of_int ?n) (- d)) (- (- d)))"
      and "\<bar>shift10 (shift10 (of_int ?n) (- d)) (- (- d))\<bar> < 10 ^ 15"
      using nb by (simp_all only: is_int_of_int)
  qed (use d in simp_all)
  have "\<bar>- rat_of_int d\<bar> < 10 ^ 21" using dd(2) by simp
  then have w2: "with_exponent (Fin (of_int ?n)) (Fin (- of_int d)) = Inr (Fin (shift10 (of_int ?n) (- d)))"
    using pn mr by (simp add: with_exponent_def is_int_def known_def)
  have "round_num (Fin q) (Fin (of_int d)) = Inr (Fin (shift10 (of_int ?n) (- d)))"
    using w2 by (simp add: round_num_def w1 fl num_neg_def up)
  then have "round_fn [VNum (Fin q), VNum (Fin (of_int d))] = Inr (VNum (Fin (shift10 (?s + 1 / 2) (- d))))"
    by (simp add: round_fn_def arg_def kq kd up)
  moreover have "shift10 ?s (- d) < shift10 (?s + 1 / 2) (- d)"
    by (rule shift10_strict_mono) simp
  then have "q < shift10 (?s + 1 / 2) (- d)" by (simp add: shift10_back)
  ultimately show ?thesis by simp
qed

lemma round_exponent:
  assumes "modelled q" "\<not> positional q" "modelled e"
  shows "round_fn [VNum (Fin q), VNum (Fin e)] = Inr (VNum NaN)"
  using assms by (simp add: round_fn_def arg_def known_def round_num_def with_exponent_def num_neg_def)

text \<open>
  C6. \<open>round\<close> rounds half up, towards \<open>+\<infinity>\<close>, at the given decimal digit. For a number
  of the model (at most 15 significant digits) that prints without an exponent, and
  digits from -30 to 30: when the fraction at that digit is exactly one half, the result
  is the next multiple above the number. So \<open>round(0.5) = 1\<close> and
  \<open>round(1.005, 2) = 1.01\<close>, and a negative number moves towards zero:
  \<open>round(-0.5) = 0\<close>. A number that prints with an exponent gives \<open>NaN\<close>, whatever the
  digits: \<open>round(5e-7, 6)\<close> is \<open>NaN\<close>.
\<close>

theorem round_half_up:
  "(modelled q \<and> positional q \<and> - 30 \<le> d \<and> d \<le> 30
      \<and> shift10 q d - of_int \<lfloor>shift10 q d\<rfloor> = 1 / 2 \<longrightarrow>
      round_fn [VNum (Fin q), VNum (Fin (of_int d))]
        = Inr (VNum (Fin (shift10 (shift10 q d + 1 / 2) (- d))))
      \<and> q < shift10 (shift10 q d + 1 / 2) (- d))
   \<and> (modelled q \<and> \<not> positional q \<and> modelled e \<longrightarrow>
        round_fn [VNum (Fin q), VNum (Fin e)] = Inr (VNum NaN))"
  using round_tie [of q d] round_exponent [of q e] by blast

theorem round_half_up_witness:
  "round_fn [VNum (Fin (1 / 2)), VNum (Fin 0)] = Inr (VNum (Fin 1))
   \<and> round_fn [VNum (Fin (- (1 / 2))), VNum (Fin 0)] = Inr (VNum (Fin 0))
   \<and> round_fn [VNum (Fin (201 / 200)), VNum (Fin 2)] = Inr (VNum (Fin (101 / 100)))
   \<and> round_fn [VNum (Fin (5 / 10 ^ 7)), VNum (Fin 6)] = Inr (VNum NaN)"
proof -
  have m: "modelled (1 / 2)" "modelled (- (1 / 2))" "modelled (201 / 200)" "modelled (5 / 10 ^ 7)"
    "modelled 6"
    by code_simp+
  have p: "positional (1 / 2)" "positional (- (1 / 2))" "positional (201 / 200)"
    "\<not> positional (5 / 10 ^ 7)"
    by (simp_all add: positional_def)
  have f: "\<lfloor>- (1 / 2) :: rat\<rfloor> = - 1" "\<lfloor>1 / 2 :: rat\<rfloor> = 0" "\<lfloor>201 / 2 :: rat\<rfloor> = 100"
    by (simp_all add: floor_eq_iff)
  have "round_fn [VNum (Fin (1 / 2)), VNum (Fin (of_int 0))]
      = Inr (VNum (Fin (shift10 (shift10 (1 / 2) 0 + 1 / 2) (- 0))))"
    using round_half_up [of "1 / 2" 0] m(1) p(1) by (simp add: shift10_def f)
  moreover have "round_fn [VNum (Fin (- (1 / 2))), VNum (Fin (of_int 0))]
      = Inr (VNum (Fin (shift10 (shift10 (- (1 / 2)) 0 + 1 / 2) (- 0))))"
    using round_half_up [of "- (1 / 2)" 0] m(2) p(2) by (simp add: shift10_def f)
  moreover have "round_fn [VNum (Fin (201 / 200)), VNum (Fin (of_int 2))]
      = Inr (VNum (Fin (shift10 (shift10 (201 / 200) 2 + 1 / 2) (- 2))))"
    using round_half_up [of "201 / 200" 2] m(3) p(3) by (simp add: shift10_def f)
  moreover have "round_fn [VNum (Fin (5 / 10 ^ 7)), VNum (Fin 6)] = Inr (VNum NaN)"
    using round_half_up [of "5 / 10 ^ 7" _ 6] m(4,5) p(4) by blast
  ultimately show ?thesis by (simp add: shift10_def)
qed

theorem round_counterexample:
  "round_fn [VNum (Fin (- 1 / 2))] = Inr (VNum (Fin 0))
   \<and> round_fn [VNum (Fin (- 5 / 2))] = Inr (VNum (Fin (- 2)))
   \<and> round_fn [VNum (Fin (- 1005 / 1000)), VNum (Fin 2)] = Inr (VNum (Fin (- 1)))"
  by code_simp

subsection \<open>Decimal numerals\<close>

text \<open>
  \<open>show_nat\<close> writes a natural number as \<open>String\<close> does, and \<open>Number\<close> reads the numeral
  back as the same number.
\<close>

lemma digit_char_inj: "n < 10 \<Longrightarrow> m < 10 \<Longrightarrow> digit_char n = digit_char m \<Longrightarrow> n = m"
proof -
  assume a: "n < 10" "m < 10" "digit_char n = digit_char m"
  have d: "distinct ''0123456789''" by simp
  have l: "length ''0123456789'' = 10" by simp
  from a d l show ?thesis
    unfolding digit_char_def by (metis nth_eq_iff_index_eq)
qed

lemma digit_char_digit: "n < 10 \<Longrightarrow> digit_char n \<in> set ''0123456789''"
  unfolding digit_char_def by (rule nth_mem) simp

lemma show_nat_simps:
  "show_nat n = (if n < 10 then [digit_char n] else show_nat (n div 10) @ [digit_char (n mod 10)])"
proof -
  have "int n div 10 = int (n div 10)" "int n mod 10 = int (n mod 10)"
    by (simp_all add: zdiv_int zmod_int)
  then show ?thesis
    unfolding show_nat_def by (subst show_digits.simps) simp
qed

lemma show_nat_induct: "(\<And>n. (\<not> n < 10 \<Longrightarrow> P (n div 10)) \<Longrightarrow> P n) \<Longrightarrow> P (n :: nat)"
proof (induction n rule: less_induct)
  case (less n)
  show ?case
  proof (rule less.prems)
    assume "\<not> n < 10"
    then have "n div 10 < n" by simp
    then show "P (n div 10)" using less.prems by (rule less.IH)
  qed
qed

lemma show_nat_nonempty: "show_nat n \<noteq> []"
  by (subst show_nat_simps) simp

lemma show_nat_digits: "set (show_nat n) \<subseteq> set ''0123456789''"
proof (induction n rule: show_nat_induct)
  case (1 n)
  show ?case
  proof (cases "n < 10")
    case True
    then show ?thesis using digit_char_digit [of n] by (subst show_nat_simps) simp
  next
    case False
    have "n mod 10 < 10" by simp
    from digit_char_digit [OF this] 1 [OF False] False show ?thesis
      by (subst show_nat_simps) simp
  qed
qed

lemma show_nat_inj: "show_nat n = show_nat m \<Longrightarrow> n = m"
proof (induction n arbitrary: m rule: show_nat_induct)
  case (1 n)
  show ?case
  proof (cases "n < 10")
    case n: True
    show ?thesis
    proof (cases "m < 10")
      case True
      with n "1.prems" show ?thesis
        by (simp add: show_nat_simps [of n] show_nat_simps [of m] digit_char_inj)
    next
      case False
      with n "1.prems" show_nat_nonempty [of "m div 10"] show ?thesis
        by (simp add: show_nat_simps [of n] show_nat_simps [of m])
    qed
  next
    case n: False
    show ?thesis
    proof (cases "m < 10")
      case True
      with n "1.prems" show_nat_nonempty [of "n div 10"] show ?thesis
        by (simp add: show_nat_simps [of n] show_nat_simps [of m])
    next
      case False
      with n "1.prems" have e: "show_nat (n div 10) = show_nat (m div 10)"
        and d: "digit_char (n mod 10) = digit_char (m mod 10)"
        by (simp_all add: show_nat_simps [of n] show_nat_simps [of m])
      from "1.IH" [OF n e] have "n div 10 = m div 10" .
      moreover from d have "n mod 10 = m mod 10" by (intro digit_char_inj) simp_all
      ultimately show ?thesis by (metis div_mult_mod_eq)
    qed
  qed
qed

lemma index_of_show_nat: "i < n \<Longrightarrow> index_of (show_nat i) n = Some i"
proof -
  assume i: "i < n"
  have fa: "find P (ys @ zs) = (case find P ys of None \<Rightarrow> find P zs | Some y \<Rightarrow> Some y)"
    for P :: "nat \<Rightarrow> bool" and ys zs
    by (induction ys) auto
  have fn: "find (\<lambda>j. j = i) [0..<m] = None" if "m \<le> i" for m
    using that by (induction m) (auto simp: fa)
  have "find (\<lambda>j. j = i) [0..<n] = Some i"
    using i
  proof (induction n)
    case 0
    then show ?case by simp
  next
    case (Suc n)
    show ?case
    proof (cases "i < n")
      case True
      with Suc.IH show ?thesis by (simp add: fa)
    next
      case False
      with Suc.prems have "i = n" by simp
      with fn [of n] show ?thesis by (simp add: fa)
    qed
  qed
  moreover have "(\<lambda>j. show_nat j = show_nat i) = (\<lambda>j. j = i)"
    by (auto dest: show_nat_inj)
  ultimately show ?thesis by (simp add: index_of_def)
qed

lemma show_nat_not_length: "show_nat i \<noteq> ''length''"
proof
  assume "show_nat i = ''length''"
  then have "CHR ''l'' \<in> set (show_nat i)" by simp
  with show_nat_digits [of i] show False by auto
qed












subsection \<open>Ordering and sort\<close>














subsection \<open>get\<close>

lemma get_fn_walk: "get_fn H path data h = (map_sum id or_null (walk H h data path), h)"
proof (cases path)
  case Nil
  then show ?thesis by (simp add: get_fn_def)
next
  case (Cons k rest)
  then show ?thesis
    by (cases rest) (auto simp: get_fn_def split: sum.splits)
qed

lemma walk_undef: "walk H h VUndef path = Inr VUndef"
  by (induction path) auto

lemma walk_nullish: "v = VNull \<or> v = VUndef \<Longrightarrow> walk H h v path = Inr v \<or> walk H h v path = Inr VUndef"
  by (cases path) (auto simp: walk_undef)

lemma own_onlyD: "own_only H k \<Longrightarrow> from_proto H kd k = Inr VUndef"
  by (cases kd) (simp_all add: own_only_def from_proto_def)

lemma index_of_less: "index_of k n = Some i \<Longrightarrow> i < n"
  unfolding index_of_def by (auto simp: find_Some_iff)

lemma value_store_cell: "value_store h \<Longrightarrow> cell_at h a = Some c \<Longrightarrow> value_cell h c"
  by (auto simp: value_store_def cell_at_def list_all_iff split: if_splits)

lemma opt_member_total:
  assumes "value_store h" "is_value h v" "own_only H k"
  shows "\<exists>w. opt_member H h v k = Inr w \<and> (w = VUndef \<or> is_value h w)"
proof (cases v)
  case (VRef a)
  with assms(2) obtain c where c: "cell_at h a = Some c"
    by (auto simp: is_value_def cell_at_def)
  from value_store_cell [OF assms(1) c] have wc: "value_cell h c" .
  show ?thesis
  proof (cases c)
    case (CArr xs)
    with VRef c wc assms(3) show ?thesis
      by (auto simp: own_onlyD is_value_def value_cell_def list_all_iff
          split: option.splits dest!: index_of_less)
  next
    case (CObj kvs)
    with VRef c wc assms(3) show ?thesis
      by (auto simp: own_onlyD is_value_def value_cell_def list_all_iff
          split: option.splits dest!: map_of_SomeD)
  qed
qed (use assms in \<open>auto simp: own_onlyD is_value_def split: option.splits\<close>)

lemma walk_total:
  "value_store h \<Longrightarrow> v = VUndef \<or> is_value h v \<Longrightarrow> list_all (own_only H) path
    \<Longrightarrow> \<exists>w. walk H h v path = Inr w \<and> (w = VUndef \<or> is_value h w)"
proof (induction path arbitrary: v)
  case Nil
  then show ?case by simp
next
  case (Cons k path)
  show ?case
  proof (cases "v = VUndef")
    case True
    then show ?thesis by (simp add: walk_undef)
  next
    case False
    with Cons.prems(2) have "is_value h v" by simp
    from opt_member_total [OF Cons.prems(1) this, of H k] Cons.prems(3)
    obtain w where "opt_member H h v k = Inr w" "w = VUndef \<or> is_value h w" by auto
    with Cons.IH [of w] Cons.prems show ?thesis by simp
  qed
qed

lemma get_returns:
  assumes "value_store h" "is_value h data" "list_all (own_only H) path"
  shows "\<exists>v. get_fn H path data h = (Inr v, h) \<and> is_value h v"
proof -
  from walk_total [of h data H path] assms obtain w where
    "walk H h data path = Inr w" "w = VUndef \<or> is_value h w" by auto
  then show ?thesis by (auto simp: get_fn_walk or_null_def is_value_def)
qed

text \<open>
  C5. \<open>get\<close> leaves the store alone and, on keys that no built-in prototype holds and a
  Value, it never throws: it returns a Value. With no keys it returns the input, \<open>null\<close>
  for \<open>null\<close>. Each key steps from the current value: from \<open>null\<close> or \<open>undefined\<close> every
  path ends in \<open>null\<close>; an object gives the value under a key of its own; an array gives
  the element at an index and its length under \<open>length\<close>; a string gives the character
  at an index and its length under \<open>length\<close>; and a key that the current value neither
  has nor inherits ends in \<open>null\<close>, for an object, an array, a string, a number and a
  boolean.
\<close>

theorem get_null_propagating:
  "snd (get_fn H path data h) = h
   \<and> (value_store h \<and> is_value h data \<and> list_all (own_only H) path \<longrightarrow>
        (\<exists>v. get_fn H path data h = (Inr v, h) \<and> is_value h v))
   \<and> get_fn H [] data h = (Inr (or_null data), h)
   \<and> (data = VNull \<or> data = VUndef \<longrightarrow> get_fn H path data h = (Inr VNull, h))
   \<and> (opt_member H h data k = Inr v \<longrightarrow> get_fn H (k # path) data h = get_fn H path v h)
   \<and> (cell_at h a = Some (CObj kvs) \<and> map_of kvs k = Some v \<longrightarrow>
        opt_member H h (VRef a) k = Inr v)
   \<and> (cell_at h a = Some (CArr xs) \<and> i < length xs \<longrightarrow>
        opt_member H h (VRef a) (show_nat i) = Inr (xs ! i))
   \<and> (cell_at h a = Some (CArr xs) \<longrightarrow>
        get_fn H [''length''] (VRef a) h = (Inr (VNum (Fin (of_nat (length xs)))), h))
   \<and> (i < length s \<longrightarrow> opt_member H h (VStr s) (show_nat i) = Inr (VStr [s ! i]))
   \<and> get_fn H [''length''] (VStr s) h = (Inr (VNum (Fin (of_nat (length s)))), h)
   \<and> (cell_at h a = Some (CObj kvs) \<and> map_of kvs k = None \<and> \<not> inherited H KObject k \<longrightarrow>
        get_fn H (k # path) (VRef a) h = (Inr VNull, h))
   \<and> (cell_at h a = Some (CArr xs) \<and> k \<noteq> ''length'' \<and> (\<forall>j < length xs. show_nat j \<noteq> k)
        \<and> \<not> inherited H KArray k \<longrightarrow>
        get_fn H (k # path) (VRef a) h = (Inr VNull, h))
   \<and> (k \<noteq> ''length'' \<and> (\<forall>j < length s. show_nat j \<noteq> k) \<and> \<not> inherited H KString k \<longrightarrow>
        get_fn H (k # path) (VStr s) h = (Inr VNull, h))
   \<and> (\<not> inherited H KNumber k \<longrightarrow> get_fn H (k # path) (VNum n) h = (Inr VNull, h))
   \<and> (\<not> inherited H KBoolean k \<longrightarrow> get_fn H (k # path) (VBool b) h = (Inr VNull, h))"
proof -
  have 1: "snd (get_fn H path data h) = h" by (simp add: get_fn_walk)
  note 2 = get_returns [of h data H path]
  have 3: "get_fn H [] data h = (Inr (or_null data), h)" by (simp add: get_fn_def)
  have 4: "get_fn H path v h = (Inr VNull, h)" if "v = VNull \<or> v = VUndef" for v path
    using walk_nullish [OF that, of H h path] that
    by (auto simp: get_fn_walk or_null_def)
  have 5: "get_fn H (k # path) data h = get_fn H path v h" if "opt_member H h data k = Inr v"
    using that by (simp add: get_fn_walk)
  have absent: "get_fn H (k # path) d h = (Inr VNull, h)" if "opt_member H h d k = Inr VUndef" for d
  proof -
    from that have "get_fn H (k # path) d h = get_fn H path VUndef h" by (simp add: get_fn_walk)
    with 4 [of VUndef path] show ?thesis by simp
  qed
  have none: "index_of k m = None" if "\<forall>j < m. show_nat j \<noteq> k" for m
    using that by (auto simp: index_of_def find_None_iff)
  have 6: "opt_member H h (VRef a) k = Inr v" if "cell_at h a = Some (CObj kvs)" "map_of kvs k = Some v"
    using that by simp
  have 7: "opt_member H h (VRef a) (show_nat i) = Inr (xs ! i)"
    if "cell_at h a = Some (CArr xs)" "i < length xs"
    using that by (simp add: show_nat_not_length index_of_show_nat)
  have 8: "get_fn H [''length''] (VRef a) h = (Inr (VNum (Fin (of_nat (length xs)))), h)"
    if "cell_at h a = Some (CArr xs)"
    using that by (simp add: get_fn_def or_null_def)
  have 9: "opt_member H h (VStr s) (show_nat i) = Inr (VStr [s ! i])" if "i < length s"
    using that by (simp add: show_nat_not_length index_of_show_nat)
  have 10: "get_fn H [''length''] (VStr s) h = (Inr (VNum (Fin (of_nat (length s)))), h)"
    by (simp add: get_fn_def or_null_def)
  have 11: "get_fn H (k # path) (VRef a) h = (Inr VNull, h)"
    if "cell_at h a = Some (CObj kvs)" "map_of kvs k = None" "\<not> inherited H KObject k"
    by (rule absent) (use that in \<open>simp add: from_proto_def\<close>)
  have 12: "get_fn H (k # path) (VRef a) h = (Inr VNull, h)"
    if "cell_at h a = Some (CArr xs)" "k \<noteq> ''length''" "\<forall>j < length xs. show_nat j \<noteq> k"
      "\<not> inherited H KArray k"
    by (rule absent) (use that none [OF that(3)] in \<open>simp add: from_proto_def\<close>)
  have 13: "get_fn H (k # path) (VStr s) h = (Inr VNull, h)"
    if "k \<noteq> ''length''" "\<forall>j < length s. show_nat j \<noteq> k" "\<not> inherited H KString k"
    by (rule absent) (use that none [OF that(2)] in \<open>simp add: from_proto_def\<close>)
  have 14: "get_fn H (k # path) (VNum n) h = (Inr VNull, h)" if "\<not> inherited H KNumber k"
    by (rule absent) (use that in \<open>simp add: from_proto_def\<close>)
  have 15: "get_fn H (k # path) (VBool b) h = (Inr VNull, h)" if "\<not> inherited H KBoolean k"
    by (rule absent) (use that in \<open>simp add: from_proto_def\<close>)
  from 1 2 3 4 [of data path] 5 6 7 8 9 10 11 12 13 14 15 show ?thesis by blast
qed

theorem get_null_propagating_witness:
  "get_fn es2023 [''a'', ''b'', ''c''] (VRef 1) nested = (Inr VNull, nested)
   \<and> get_fn es2023 [''zip''] (VRef 1) nested = (Inr VNull, nested)
   \<and> get_fn es2023 [''1'', ''a''] (VRef 2) nested = (Inr (VRef 0), nested)
   \<and> get_fn es2023 [''length''] (VRef 2) nested = (Inr (VNum (Fin 2)), nested)
   \<and> get_fn es2023 [''0'', ''0''] (VRef 2) nested = (Inr (VStr ''x''), nested)
   \<and> (\<exists>v. get_fn es2023 [''a'', ''zip''] (VRef 1) nested = (Inr v, nested) \<and> is_value nested v)"
proof -
  have c: "cell_at nested 0 = Some (CObj [(''b'', VNull)])"
    "cell_at nested 1 = Some (CObj [(''a'', VRef 0)])"
    "cell_at nested 2 = Some (CArr [VStr ''x'', VRef 1])"
    by (simp_all add: nested_def cell_at_def)
  have s: "show_nat 1 = ''1''" "show_nat 0 = ''0''" by code_simp+
  have i: "\<not> inherited es2023 KObject ''zip''" by code_simp
  have w: "value_store nested" "is_value nested (VRef 1)" by code_simp+
  have o: "list_all (own_only es2023) [''a'', ''zip'']" by code_simp
  note g = get_null_propagating [where H = es2023 and h = nested]
  have step: "get_fn es2023 (k # p) d nested = get_fn es2023 p v nested"
    if "opt_member es2023 nested d k = Inr v" for d k v p
    using g [where data = d and k = k and v = v and path = p] that by blast
  have key: "opt_member es2023 nested (VRef a) k = Inr v"
    if "cell_at nested a = Some (CObj kvs)" "map_of kvs k = Some v" for a kvs k v
    using g [where a = a and kvs = kvs and k = k and v = v] that by blast
  have idx: "opt_member es2023 nested (VRef a) (show_nat i) = Inr (xs ! i)"
    if "cell_at nested a = Some (CArr xs)" "i < length xs" for a xs i
    using g [where a = a and xs = xs and i = i] that by blast
  have chr: "opt_member es2023 nested (VStr t) (show_nat i) = Inr (VStr [t ! i])"
    if "i < length t" for t i
    using g [where s = t and i = i] that by blast
  have a1: "opt_member es2023 nested (VRef 1) ''a'' = Inr (VRef 0)"
    by (rule key [OF c(2)]) simp
  have a2: "opt_member es2023 nested (VRef 0) ''b'' = Inr VNull"
    by (rule key [OF c(1)]) simp
  have a3: "get_fn es2023 [''c''] VNull nested = (Inr VNull, nested)"
    using g [where data = VNull and path = "[''c'']"] by blast
  have a4: "get_fn es2023 [] (VRef 0) nested = (Inr (VRef 0), nested)"
    using g [where data = "VRef 0"] by (simp add: or_null_def)
  have a5: "get_fn es2023 [] (VStr ''x'') nested = (Inr (VStr ''x''), nested)"
    using g [where data = "VStr ''x''"] by (simp add: or_null_def)
  have b1: "opt_member es2023 nested (VRef 2) ''1'' = Inr (VRef 1)"
    using idx [OF c(3), of 1] unfolding s by simp
  have b0: "opt_member es2023 nested (VRef 2) ''0'' = Inr (VStr ''x'')"
    using idx [OF c(3), of 0] unfolding s by simp
  have c0: "opt_member es2023 nested (VStr ''x'') ''0'' = Inr (VStr ''x'')"
    using chr [of 0 "''x''"] unfolding s by simp
  have "get_fn es2023 [''a'', ''b'', ''c''] (VRef 1) nested = (Inr VNull, nested)"
    by (simp only: step [OF a1] step [OF a2] a3)
  moreover have "get_fn es2023 [''zip''] (VRef 1) nested = (Inr VNull, nested)"
    using g [where a = 1 and kvs = "[(''a'', VRef 0)]" and k = "''zip''" and path = "[]"] c(2) i
    by fastforce
  moreover have "get_fn es2023 [''1'', ''a''] (VRef 2) nested = (Inr (VRef 0), nested)"
    by (simp only: step [OF b1] step [OF a1] a4)
  moreover have "get_fn es2023 [''length''] (VRef 2) nested = (Inr (VNum (Fin 2)), nested)"
    using g [where a = 2 and xs = "[VStr ''x'', VRef 1]"] c(3) by fastforce
  moreover have "get_fn es2023 [''0'', ''0''] (VRef 2) nested = (Inr (VStr ''x''), nested)"
    by (simp only: step [OF b0] step [OF c0] a5)
  moreover have "\<exists>v. get_fn es2023 [''a'', ''zip''] (VRef 1) nested = (Inr v, nested) \<and> is_value nested v"
    using g [where data = "VRef 1" and path = "[''a'', ''zip'']"] w o by blast
  ultimately show ?thesis by blast
qed

theorem get_length_counterexample:
  "jsonquery es2023 (VRef 0) (Function ''get'' [Literal (LStr ''length'')])
     [CArr [VNum (Fin 1), VNum (Fin 2)]]
     = Inr (Inr (VNum (Fin 2)), [CArr [VNum (Fin 1), VNum (Fin 2)]])
   \<and> jsonquery es2023 (VStr ''ab'') (Function ''get'' [Literal (LStr ''length'')]) []
     = Inr (Inr (VNum (Fin 2)), [])
   \<and> jsonquery es2023 (VStr ''ab'') (Function ''get'' [Literal (LNum (Fin 1))]) []
     = Inr (Inr (VStr ''b''), [])"
  by code_simp

subsection \<open>Queries that always return\<close>

























end
